theory Spec2Isabelle
  imports Main "HOL-Library.AList" "HOL-Library.Product_Lexorder" "HOL-Library.List_Lexorder"
begin

section \<open>Python strings\<close>

text \<open>
  A Python \<^verbatim>\<open>str\<close> is a sequence of Unicode code points: \<^verbatim>\<open>len\<close>, slicing and
  the \<^verbatim>\<open>re\<close> module all count code points. It is modelled as a list of natural
  numbers, one per code point.
\<close>

type_synonym pstr = "nat list"

definition is_ascii :: "nat \<Rightarrow> bool" where
  "is_ascii c = (c < 128)"

definition is_ascii_digit :: "nat \<Rightarrow> bool" where
  "is_ascii_digit c = (48 \<le> c \<and> c \<le> 57)"

definition is_ascii_upper :: "nat \<Rightarrow> bool" where
  "is_ascii_upper c = (65 \<le> c \<and> c \<le> 90)"

definition is_ascii_lower :: "nat \<Rightarrow> bool" where
  "is_ascii_lower c = (97 \<le> c \<and> c \<le> 122)"

definition is_ascii_alnum :: "nat \<Rightarrow> bool" where
  "is_ascii_alnum c = (is_ascii_digit c \<or> is_ascii_upper c \<or> is_ascii_lower c)"

definition ascii_lower :: "nat \<Rightarrow> nat" where
  "ascii_lower c = (if is_ascii_upper c then c + 32 else c)"

text \<open>\<^verbatim>\<open>str.isascii()\<close>: true on the empty string.\<close>

definition isascii :: "pstr \<Rightarrow> bool" where
  "isascii s = list_all is_ascii s"

text \<open>
  \<^verbatim>\<open>str.isalnum()\<close> on a string of ASCII code points: non-empty and every code point
  a letter or a digit. The source only calls it behind \<^verbatim>\<open>keyword.isascii() and\<close>.
\<close>

definition isalnum_ascii :: "pstr \<Rightarrow> bool" where
  "isalnum_ascii s = (s \<noteq> [] \<and> list_all is_ascii_alnum s)"

text \<open>
  \<^verbatim>\<open>str.lower()\<close>. On a string of ASCII code points it maps A-Z to a-z. On any other
  string it follows the Unicode case tables (and the final-sigma rule), which are not
  reproduced here: that part is the parameter \<open>ulower\<close>.
\<close>

definition py_lower :: "(pstr \<Rightarrow> pstr) \<Rightarrow> pstr \<Rightarrow> pstr" where
  "py_lower ulower s = (if isascii s then map ascii_lower s else ulower s)"

text \<open>The code points for which \<^verbatim>\<open>str.isspace()\<close> holds; \<^verbatim>\<open>str.strip()\<close> removes them.\<close>

definition is_space :: "nat \<Rightarrow> bool" where
  "is_space c = ((9 \<le> c \<and> c \<le> 13) \<or> (28 \<le> c \<and> c \<le> 32) \<or> c = 0x85 \<or> c = 0xA0
     \<or> c = 0x1680 \<or> (0x2000 \<le> c \<and> c \<le> 0x200A) \<or> c = 0x2028 \<or> c = 0x2029
     \<or> c = 0x202F \<or> c = 0x205F \<or> c = 0x3000)"

definition strip :: "pstr \<Rightarrow> pstr" where
  "strip s = rev (dropWhile is_space (rev (dropWhile is_space s)))"

text \<open>\<^verbatim>\<open>needle in haystack\<close> on strings: the needle occurs as a contiguous run.\<close>

fun startswith :: "pstr \<Rightarrow> pstr \<Rightarrow> bool" where
  "startswith s [] = True"
| "startswith [] (p # ps) = False"
| "startswith (c # cs) (p # ps) = (c = p \<and> startswith cs ps)"

fun str_contains :: "pstr \<Rightarrow> pstr \<Rightarrow> bool" where
  "str_contains needle [] = (needle = [])"
| "str_contains needle (c # cs) = (startswith (c # cs) needle \<or> str_contains needle cs)"

section \<open>Keyword matching (trendradar/core/frequency.py)\<close>

subsection \<open>\<^verbatim>\<open>_should_use_ascii_word_boundary\<close>\<close>

definition should_use_ascii_word_boundary :: "pstr \<Rightarrow> bool" where
  "should_use_ascii_word_boundary keyword =
     (if keyword = [] then False
      else if length keyword < 2 \<or> length keyword > 4 then False
      else isascii keyword \<and> isalnum_ascii keyword)"

subsection \<open>\<^verbatim>\<open>_compile_ascii_boundary_pattern\<close> and \<^verbatim>\<open>pattern.search\<close>\<close>

text \<open>
  The pattern is \<^verbatim>\<open>(?<![A-Za-z0-9])\<close> followed by the escaped lower-cased keyword
  followed by \<^verbatim>\<open>(?![A-Za-z0-9])\<close>, compiled with \<^verbatim>\<open>re.IGNORECASE\<close>. The keyword consists of
  ASCII letters and digits, which \<^verbatim>\<open>re.escape\<close> leaves as they are.

  Under \<^verbatim>\<open>re.IGNORECASE\<close> a \<^verbatim>\<open>str\<close> pattern is matched with the Unicode simple
  case mapping, so the class \<^verbatim>\<open>[A-Za-z0-9]\<close> also accepts the four non-ASCII letters
  U+0130, U+0131, U+017F and U+212A (as the documentation of \<^verbatim>\<open>re.IGNORECASE\<close> says),
  and the literals i, s and k accept them likewise.
\<close>

definition sre_class_alnum :: "nat \<Rightarrow> bool" where
  "sre_class_alnum c = (is_ascii_alnum c \<or> c = 0x130 \<or> c = 0x131 \<or> c = 0x17F \<or> c = 0x212A)"

text \<open>A literal \<open>l\<close> of the pattern (a lower-case ASCII letter or a digit) against a
  code point \<open>c\<close> of the title.\<close>

definition sre_literal :: "nat \<Rightarrow> nat \<Rightarrow> bool" where
  "sre_literal l c =
     (c = l \<or> (is_ascii_lower l \<and> c + 32 = l)
      \<or> (l = 105 \<and> (c = 0x130 \<or> c = 0x131))
      \<or> (l = 115 \<and> c = 0x17F)
      \<or> (l = 107 \<and> c = 0x212A))"

fun sre_literals :: "pstr \<Rightarrow> pstr \<Rightarrow> bool" where
  "sre_literals [] t = True"
| "sre_literals (l # ls) [] = False"
| "sre_literals (l # ls) (c # cs) = (sre_literal l c \<and> sre_literals ls cs)"

text \<open>The pattern matches at the current position: \<open>prev\<close> is the code point before
  it (none at the start of the title), \<open>t\<close> the rest of the title.\<close>

definition match_here :: "pstr \<Rightarrow> nat option \<Rightarrow> pstr \<Rightarrow> bool" where
  "match_here pat prev t =
     ((case prev of None \<Rightarrow> True | Some p \<Rightarrow> \<not> sre_class_alnum p)
      \<and> sre_literals pat t
      \<and> (case drop (length pat) t of [] \<Rightarrow> True | c # _ \<Rightarrow> \<not> sre_class_alnum c))"

fun pattern_search :: "pstr \<Rightarrow> nat option \<Rightarrow> pstr \<Rightarrow> bool" where
  "pattern_search pat prev [] = match_here pat prev []"
| "pattern_search pat prev (c # cs) =
     (match_here pat prev (c # cs) \<or> pattern_search pat (Some c) cs)"

subsection \<open>\<^verbatim>\<open>_keyword_in_title\<close>\<close>

text \<open>Keywords are strings (\<^verbatim>\<open>List[str]\<close>, as the rulebook parser produces them).\<close>

definition keyword_in_title :: "(pstr \<Rightarrow> pstr) \<Rightarrow> pstr \<Rightarrow> pstr \<Rightarrow> pstr \<Rightarrow> bool" where
  "keyword_in_title ulower title title_lower keyword =
     (if keyword = [] then False
      else if should_use_ascii_word_boundary keyword
        then pattern_search (py_lower ulower keyword) None title
      else str_contains (py_lower ulower keyword) title_lower)"

subsection \<open>\<^verbatim>\<open>matches_group\<close> and \<^verbatim>\<open>matches_word_groups\<close>\<close>

text \<open>
  The title argument: a string, \<^verbatim>\<open>None\<close>, or any other object, given by the string
  that \<^verbatim>\<open>str(title)\<close> returns for it.
\<close>

datatype title_arg = TStr pstr | TNone | TObj pstr

text \<open>\<^verbatim>\<open>str(x)\<close> of a title argument, used to state what coercion would give.\<close>

fun py_str :: "title_arg \<Rightarrow> pstr" where
  "py_str (TStr s) = s"
| "py_str TNone = [78, 111, 110, 101]"
| "py_str (TObj s) = s"

text \<open>The two defensive lines at the head of both functions:
  \<^verbatim>\<open>if not isinstance(title, str): title = str(title) if title is not None else ""\<close>.\<close>

fun coerce_title :: "title_arg \<Rightarrow> pstr" where
  "coerce_title (TStr s) = s"
| "coerce_title TNone = []"
| "coerce_title (TObj s) = s"

text \<open>
  A word group is a dict with the keys \<^verbatim>\<open>required\<close>, \<^verbatim>\<open>normal\<close>, \<^verbatim>\<open>group_key\<close> and
  \<^verbatim>\<open>max_count\<close>. The matcher reads the first two with \<^verbatim>\<open>group.get(key, []) or []\<close>:
  \<open>None\<close> stands for a missing key or a \<^verbatim>\<open>None\<close> value.
\<close>

record word_group =
  required :: "pstr list option"
  normal :: "pstr list option"
  group_key :: pstr
  max_count :: int

definition or_empty :: "'a list option \<Rightarrow> 'a list" where
  "or_empty v = (case v of None \<Rightarrow> [] | Some xs \<Rightarrow> xs)"

definition matches_group :: "(pstr \<Rightarrow> pstr) \<Rightarrow> title_arg \<Rightarrow> word_group \<Rightarrow> bool" where
  "matches_group ulower title_in g =
     (let title = coerce_title title_in in
      if title = [] then False
      else
        let title_lower = py_lower ulower title;
            required_words = or_empty (required g);
            normal_words = or_empty (normal g)
        in if required_words \<noteq> []
              \<and> \<not> list_all (keyword_in_title ulower title title_lower) required_words
           then False
           else if normal_words \<noteq> []
              \<and> \<not> list_ex (keyword_in_title ulower title title_lower) normal_words
           then False
           else True)"

definition matches_word_groups ::
  "(pstr \<Rightarrow> pstr) \<Rightarrow> title_arg \<Rightarrow> word_group list \<Rightarrow> pstr list \<Rightarrow> pstr list option \<Rightarrow> bool" where
  "matches_word_groups ulower title_in word_groups filter_words global_filters =
     (let title = coerce_title title_in in
      if strip title = [] then False
      else
        let title_lower = py_lower ulower title
        in if or_empty global_filters \<noteq> []
              \<and> list_ex (keyword_in_title ulower title title_lower) (or_empty global_filters)
           then False
           else if word_groups = [] then True
           else if list_ex (keyword_in_title ulower title title_lower) filter_words then False
           else list_ex (matches_group ulower (TStr title)) word_groups)"

section \<open>Exceptions and \<^verbatim>\<open>int(str)\<close>\<close>

text \<open>
  The exceptions that the modelled code can raise. \<open>Unmodelled\<close> is not a Python
  exception: it marks an input on which the outcome depends on something this theory does
  not model (the numeric value of a float, the order in which a sort compares values of
  different types); every statement below is about calls that do not end there.
\<close>

datatype error = TypeError | ValueError | KeyError | AttributeError | OverflowError
  | FileNotFoundError | Unmodelled

text \<open>
  \<^verbatim>\<open>int(s)\<close> on a string, base 10: surrounding whitespace is dropped, one sign is
  allowed, then come decimal digits, single underscores allowed between two digits. Every
  code point of Unicode category Nd counts as a digit; these come in runs of ten, whose first
  code points (Unicode 14.0) are listed in \<open>nd_starts\<close>. A string with more digits than
  \<^verbatim>\<open>sys.get_int_max_str_digits()\<close> (4300 unless reconfigured) is rejected. \<open>None\<close> stands
  for \<^verbatim>\<open>ValueError\<close>.
\<close>

definition nd_starts :: "nat list" where
  "nd_starts = [0x30, 0x660, 0x6F0, 0x7C0, 0x966, 0x9E6, 0xA66, 0xAE6, 0xB66, 0xBE6, 0xC66,
     0xCE6, 0xD66, 0xDE6, 0xE50, 0xED0, 0xF20, 0x1040, 0x1090, 0x17E0, 0x1810, 0x1946, 0x19D0,
     0x1A80, 0x1A90, 0x1B50, 0x1BB0, 0x1C40, 0x1C50, 0xA620, 0xA8D0, 0xA900, 0xA9D0, 0xA9F0,
     0xAA50, 0xABF0, 0xFF10, 0x104A0, 0x10D30, 0x11066, 0x110F0, 0x11136, 0x111D0, 0x112F0,
     0x11450, 0x114D0, 0x11650, 0x116C0, 0x11730, 0x118E0, 0x11950, 0x11C50, 0x11D50, 0x11DA0,
     0x16A60, 0x16AC0, 0x16B50, 0x1D7CE, 0x1D7D8, 0x1D7E2, 0x1D7EC, 0x1D7F6, 0x1E140, 0x1E2F0,
     0x1E950, 0x1FBF0]"

definition digit_value :: "nat \<Rightarrow> nat option" where
  "digit_value c =
     (case filter (\<lambda>b. b \<le> c \<and> c < b + 10) nd_starts of
        [] \<Rightarrow> None
      | b # _ \<Rightarrow> Some (c - b))"

text \<open>The whitespace that \<^verbatim>\<open>int\<close> drops: that of \<^verbatim>\<open>str.isspace()\<close> without the four
  separators U+001C to U+001F.\<close>

definition is_int_space :: "nat \<Rightarrow> bool" where
  "is_int_space c = (is_space c \<and> \<not> (28 \<le> c \<and> c \<le> 31))"

definition int_max_str_digits :: nat where
  "int_max_str_digits = 4300"

text \<open>The digits after the first one, most significant first; \<open>acc\<close> holds the digits
  read so far, in reverse.\<close>

fun int_digits :: "nat list \<Rightarrow> pstr \<Rightarrow> nat list option" where
  "int_digits acc [] = Some (rev acc)"
| "int_digits acc [c] =
     (case digit_value c of None \<Rightarrow> None | Some v \<Rightarrow> Some (rev (v # acc)))"
| "int_digits acc (c # d # cs) =
     (if c = 95
      then (case digit_value d of None \<Rightarrow> None | Some v \<Rightarrow> int_digits (v # acc) cs)
      else (case digit_value c of None \<Rightarrow> None | Some v \<Rightarrow> int_digits (v # acc) (d # cs)))"

definition int_unsigned :: "pstr \<Rightarrow> nat option" where
  "int_unsigned s =
     (case s of
        [] \<Rightarrow> None
      | c # cs \<Rightarrow>
          (case digit_value c of
             None \<Rightarrow> None
           | Some v \<Rightarrow>
               (case int_digits [v] cs of
                  None \<Rightarrow> None
                | Some ds \<Rightarrow>
                    if length ds > int_max_str_digits then None
                    else Some (foldl (\<lambda>a d. 10 * a + d) 0 ds))))"

definition py_int_str :: "pstr \<Rightarrow> int option" where
  "py_int_str s =
     (let t = rev (dropWhile is_int_space (rev (dropWhile is_int_space s)))
      in case t of
           [] \<Rightarrow> None
         | c # cs \<Rightarrow>
             if c = 45 then map_option (\<lambda>n. - int n) (int_unsigned cs)
             else if c = 43 then map_option int (int_unsigned cs)
             else map_option int (int_unsigned t))"

section \<open>The rulebook parser (\<^verbatim>\<open>load_frequency_words\<close>)\<close>

text \<open>\<^verbatim>\<open>content.split("\n\n")\<close> and \<^verbatim>\<open>group.split("\n")\<close>; \<open>cur\<close> holds the current piece
  in reverse.\<close>

fun split_blank :: "pstr \<Rightarrow> pstr \<Rightarrow> pstr list" where
  "split_blank cur [] = [rev cur]"
| "split_blank cur [a] = [rev (a # cur)]"
| "split_blank cur (a # b # rest) =
     (if a = 10 \<and> b = 10 then rev cur # split_blank [] rest
      else split_blank (a # cur) (b # rest))"

fun split_lines :: "pstr \<Rightarrow> pstr \<Rightarrow> pstr list" where
  "split_lines cur [] = [rev cur]"
| "split_lines cur (a # rest) =
     (if a = 10 then rev cur # split_lines [] rest else split_lines (a # cur) rest)"

text \<open>\<^verbatim>\<open>[x.strip() for x in parts if x.strip()]\<close>.\<close>

definition stripped_nonempty :: "pstr list \<Rightarrow> pstr list" where
  "stripped_nonempty parts = map strip (filter (\<lambda>x. strip x \<noteq> []) parts)"

text \<open>\<^verbatim>\<open>" ".join(words)\<close>.\<close>

fun join_space :: "pstr list \<Rightarrow> pstr" where
  "join_space [] = []"
| "join_space [w] = w"
| "join_space (w # v # ws) = w @ [32] @ join_space (v # ws)"

text \<open>
  \<^verbatim>\<open>str.upper()\<close> of one code point, when the result is ASCII: the ASCII code points
  themselves and the ten others whose upper-case form is made of ASCII letters. \<open>None\<close>
  when the upper-case form has a non-ASCII code point, so that the upper-cased string
  cannot be one of the two section names.
\<close>

definition upper_ascii :: "nat \<Rightarrow> pstr option" where
  "upper_ascii c =
     (if is_ascii_lower c then Some [c - 32]
      else if c < 128 then Some [c]
      else if c = 0xDF then Some [83, 83]
      else if c = 0x131 then Some [73]
      else if c = 0x17F then Some [83]
      else if c = 0xFB00 then Some [70, 70]
      else if c = 0xFB01 then Some [70, 73]
      else if c = 0xFB02 then Some [70, 76]
      else if c = 0xFB03 then Some [70, 70, 73]
      else if c = 0xFB04 then Some [70, 70, 76]
      else if c = 0xFB05 \<or> c = 0xFB06 then Some [83, 84]
      else None)"

datatype section_tag = GLOBAL_FILTER | WORD_GROUPS

text \<open>\<^verbatim>\<open>section_name = lines[0][1:-1].upper()\<close> compared with the two recognised names.\<close>

definition section_of_tag :: "pstr \<Rightarrow> section_tag option" where
  "section_of_tag line =
     (case those (map upper_ascii (butlast (tl line))) of
        None \<Rightarrow> None
      | Some parts \<Rightarrow>
          if concat parts = [71, 76, 79, 66, 65, 76, 95, 70, 73, 76, 84, 69, 82]
            then Some GLOBAL_FILTER
          else if concat parts = [87, 79, 82, 68, 95, 71, 82, 79, 85, 80, 83]
            then Some WORD_GROUPS
          else None)"

definition is_tag_line :: "pstr \<Rightarrow> bool" where
  "is_tag_line line = (line \<noteq> [] \<and> hd line = 91 \<and> last line = 93)"

text \<open>The variables of the loop over the lines of one word-group block.\<close>

record group_vars =
  group_required_words :: "pstr list"
  group_normal_words :: "pstr list"
  group_filter_words :: "pstr list"
  group_max_count :: int
  filter_words :: "pstr list"

text \<open>The body of \<^verbatim>\<open>for word in words\<close>. A line is never empty here.\<close>

definition parse_word :: "group_vars \<Rightarrow> pstr \<Rightarrow> group_vars" where
  "parse_word v word =
     (if startswith word [64] then
        (case py_int_str (tl word) of
           Some count \<Rightarrow> if count > 0 then v\<lparr>group_max_count := count\<rparr> else v
         | None \<Rightarrow> v)
      else if startswith word [33] then
        v\<lparr>filter_words := filter_words v @ [tl word],
          group_filter_words := group_filter_words v @ [tl word]\<rparr>
      else if startswith word [43] then
        v\<lparr>group_required_words := group_required_words v @ [tl word]\<rparr>
      else v\<lparr>group_normal_words := group_normal_words v @ [word]\<rparr>)"

text \<open>The loop over one block, from the initial values of its variables
  (\<^verbatim>\<open>group_max_count = 0\<close>) and the filter words collected so far.\<close>

definition parse_group :: "pstr list \<Rightarrow> pstr list \<Rightarrow> group_vars" where
  "parse_group fws words =
     foldl parse_word
       \<lparr>group_required_words = [], group_normal_words = [], group_filter_words = [],
        group_max_count = 0, filter_words = fws\<rparr> words"

text \<open>The state of the loop over the blocks.\<close>

record loader_state =
  processed_groups :: "word_group list"
  all_filter_words :: "pstr list"
  global_filters :: "pstr list"
  current_section :: section_tag

definition process_block :: "loader_state \<Rightarrow> pstr \<Rightarrow> loader_state" where
  "process_block st grp =
     (let lines0 = stripped_nonempty (split_lines [] grp) in
      if lines0 = [] then st
      else
        let tagged = (if is_tag_line (hd lines0) then section_of_tag (hd lines0) else None);
            sec = (case tagged of None \<Rightarrow> current_section st | Some s \<Rightarrow> s);
            lines = (case tagged of None \<Rightarrow> lines0 | Some s \<Rightarrow> tl lines0);
            st1 = st\<lparr>current_section := sec\<rparr>
        in if sec = GLOBAL_FILTER then
             st1\<lparr>global_filters := global_filters st1
                @ filter (\<lambda>line. \<not> (startswith line [33] \<or> startswith line [43]
                                    \<or> startswith line [64]) \<and> line \<noteq> []) lines\<rparr>
           else
             let v = parse_group (all_filter_words st1) lines;
                 st2 = st1\<lparr>all_filter_words := filter_words v\<rparr>
             in if group_required_words v \<noteq> [] \<or> group_normal_words v \<noteq> [] then
                  st2\<lparr>processed_groups := processed_groups st2 @
                    [\<lparr>required = Some (group_required_words v),
                      normal = Some (group_normal_words v),
                      group_key = (if group_normal_words v \<noteq> []
                                   then join_space (group_normal_words v)
                                   else join_space (group_required_words v)),
                      max_count = group_max_count v\<rparr>]\<rparr>
                else st2)"

text \<open>
  \<^verbatim>\<open>load_frequency_words\<close>, from what \<^verbatim>\<open>f.read()\<close> returns: \<open>None\<close> when the file does not
  exist, otherwise the text as Python reads it in text mode, that is decoded and with
  every line ending (\<^verbatim>\<open>\r\n\<close>, \<^verbatim>\<open>\r\<close>) already translated to \<^verbatim>\<open>\n\<close>.
\<close>

definition load_frequency_words ::
  "pstr option \<Rightarrow> error + (word_group list \<times> pstr list \<times> pstr list)" where
  "load_frequency_words file =
     (case file of
        None \<Rightarrow> Inl FileNotFoundError
      | Some content \<Rightarrow>
          let word_groups = stripped_nonempty (split_blank [] content);
              st = foldl process_block
                     \<lparr>processed_groups = [], all_filter_words = [], global_filters = [],
                      current_section = WORD_GROUPS\<rparr> word_groups
          in Inr (processed_groups st, all_filter_words st, global_filters st))"

section \<open>Python values\<close>

text \<open>
  The stat entries and title records of the report are dicts whose values the code
  inspects at run time (\<^verbatim>\<open>x or default\<close>, \<^verbatim>\<open>int(x)\<close>, \<^verbatim>\<open>list(x)\<close>), so they are modelled
  as values of a universal type. Dict keys are strings; a dict is an association list in
  insertion order. A float is not-a-number, an infinity, or a finite double, given by two
  integers \<open>m\<close> and \<open>e\<close> as \<open>m * 2 ^ e\<close> (the sign of a zero is not kept: nothing in
  the code observes it).
\<close>

datatype pyfloat = FNaN | FPosInf | FNegInf | FFinite int int

datatype pyval =
    VNone
  | VBool bool
  | VInt int
  | VFloat pyfloat
  | VStr pstr
  | VList "pyval list"
  | VDict "(pstr \<times> pyval) list"

text \<open>A field name, written as an ASCII string literal.\<close>

definition key :: "string \<Rightarrow> pstr" where
  "key s = map of_char s"

subsection \<open>Sequencing of calls that may raise\<close>

definition rbind :: "error + 'a \<Rightarrow> ('a \<Rightarrow> error + 'b) \<Rightarrow> error + 'b" where
  "rbind m f = (case m of Inl e \<Rightarrow> Inl e | Inr x \<Rightarrow> f x)"

fun mapM :: "('a \<Rightarrow> error + 'b) \<Rightarrow> 'a list \<Rightarrow> error + 'b list" where
  "mapM f [] = Inr []"
| "mapM f (x # xs) = rbind (f x) (\<lambda>y. rbind (mapM f xs) (\<lambda>ys. Inr (y # ys)))"

fun foldM :: "('s \<Rightarrow> 'a \<Rightarrow> error + 's) \<Rightarrow> 's \<Rightarrow> 'a list \<Rightarrow> error + 's" where
  "foldM f s [] = Inr s"
| "foldM f s (x # xs) = rbind (f s x) (\<lambda>s'. foldM f s' xs)"

text \<open>\<^verbatim>\<open>try: ... except (TypeError, ValueError): ...\<close>\<close>

definition caught :: "error \<Rightarrow> bool" where
  "caught e = (e = TypeError \<or> e = ValueError)"

subsection \<open>Floats\<close>

text \<open>What the code observes of a float: whether it is zero (\<^verbatim>\<open>x or d\<close>), whether it is
  at most 0 (\<^verbatim>\<open>x <= 0\<close>, false on not-a-number), and its integer part (\<^verbatim>\<open>int(x)\<close>, which
  truncates towards zero, raises \<^verbatim>\<open>ValueError\<close> on not-a-number and \<^verbatim>\<open>OverflowError\<close> on an
  infinity).\<close>

fun float_is_zero :: "pyfloat \<Rightarrow> bool" where
  "float_is_zero (FFinite m e) = (m = 0)"
| "float_is_zero _ = False"

fun float_le_zero :: "pyfloat \<Rightarrow> bool" where
  "float_le_zero FNaN = False"
| "float_le_zero FPosInf = False"
| "float_le_zero FNegInf = True"
| "float_le_zero (FFinite m e) = (m \<le> 0)"

fun float_trunc :: "pyfloat \<Rightarrow> error + int" where
  "float_trunc FNaN = Inl ValueError"
| "float_trunc FPosInf = Inl OverflowError"
| "float_trunc FNegInf = Inl OverflowError"
| "float_trunc (FFinite m e) =
     Inr (if e \<ge> 0 then m * 2 ^ nat e
          else if m \<ge> 0 then m div 2 ^ nat (- e)
          else - ((- m) div 2 ^ nat (- e)))"

text \<open>
  The operations that produce a float round, and \<^verbatim>\<open>float\<close> parses a string: they are
  parameters of the model, the float library of the platform. \<open>float_of_int\<close> is the
  conversion of an integer that is not too large, \<open>float_of_str\<close> is \<^verbatim>\<open>float\<close> on a
  string, \<open>None\<close> where it raises \<^verbatim>\<open>ValueError\<close>, and \<open>float_add\<close> is the sum of two
  floats.
\<close>

record float_ops =
  float_of_int :: "int \<Rightarrow> pyfloat"
  float_of_str :: "pstr \<Rightarrow> pyfloat option"
  float_add :: "pyfloat \<Rightarrow> pyfloat \<Rightarrow> pyfloat"

subsection \<open>Operations on values\<close>

text \<open>Truth value of an object (\<^verbatim>\<open>if x\<close>, \<^verbatim>\<open>not x\<close>, \<^verbatim>\<open>x or y\<close>).\<close>

fun truthy :: "pyval \<Rightarrow> error + bool" where
  "truthy VNone = Inr False"
| "truthy (VBool b) = Inr b"
| "truthy (VInt n) = Inr (n \<noteq> 0)"
| "truthy (VFloat f) = Inr (\<not> float_is_zero f)"
| "truthy (VStr s) = Inr (s \<noteq> [])"
| "truthy (VList xs) = Inr (xs \<noteq> [])"
| "truthy (VDict d) = Inr (d \<noteq> [])"

text \<open>\<^verbatim>\<open>x or d\<close>\<close>

definition or_else :: "pyval \<Rightarrow> pyval \<Rightarrow> error + pyval" where
  "or_else x d = rbind (truthy x) (\<lambda>t. Inr (if t then x else d))"

text \<open>\<^verbatim>\<open>d.get(k, default)\<close> and \<^verbatim>\<open>d[k] = v\<close> on a dict.\<close>

definition dict_get :: "(pstr \<times> pyval) list \<Rightarrow> pstr \<Rightarrow> pyval \<Rightarrow> pyval" where
  "dict_get d k dflt = (case map_of d k of None \<Rightarrow> dflt | Some v \<Rightarrow> v)"

definition dict_set :: "(pstr \<times> pyval) list \<Rightarrow> pstr \<Rightarrow> pyval \<Rightarrow> (pstr \<times> pyval) list" where
  "dict_set d k v = AList.update k v d"

text \<open>\<^verbatim>\<open>x.get(k, default)\<close> on any object: only a dict has the method.\<close>

fun py_get :: "pyval \<Rightarrow> pstr \<Rightarrow> pyval \<Rightarrow> error + pyval" where
  "py_get (VDict d) k dflt = Inr (dict_get d k dflt)"
| "py_get _ k dflt = Inl AttributeError"

text \<open>\<^verbatim>\<open>x[k]\<close> with a string \<open>k\<close>: \<^verbatim>\<open>KeyError\<close> on a dict without the key,
  \<^verbatim>\<open>TypeError\<close> on everything that is not a dict.\<close>

fun py_item :: "pyval \<Rightarrow> pstr \<Rightarrow> error + pyval" where
  "py_item (VDict d) k = (case map_of d k of None \<Rightarrow> Inl KeyError | Some v \<Rightarrow> Inr v)"
| "py_item _ k = Inl TypeError"

text \<open>Iteration over an object (\<^verbatim>\<open>for x in v\<close>, \<^verbatim>\<open>list(v)\<close>): the items of a list, the
  characters of a string, the keys of a dict.\<close>

fun py_iter :: "pyval \<Rightarrow> error + pyval list" where
  "py_iter (VList xs) = Inr xs"
| "py_iter (VStr s) = Inr (map (\<lambda>c. VStr [c]) s)"
| "py_iter (VDict d) = Inr (map (\<lambda>kv. VStr (fst kv)) d)"
| "py_iter _ = Inl TypeError"

text \<open>\<^verbatim>\<open>d.items()\<close>\<close>

fun py_items :: "pyval \<Rightarrow> error + (pstr \<times> pyval) list" where
  "py_items (VDict d) = Inr d"
| "py_items _ = Inl AttributeError"

text \<open>\<^verbatim>\<open>len(x)\<close>\<close>

fun py_len :: "pyval \<Rightarrow> error + nat" where
  "py_len (VList xs) = Inr (length xs)"
| "py_len (VStr s) = Inr (length s)"
| "py_len (VDict d) = Inr (length d)"
| "py_len _ = Inl TypeError"

text \<open>\<^verbatim>\<open>int(x)\<close>\<close>

fun py_int :: "pyval \<Rightarrow> error + int" where
  "py_int (VInt n) = Inr n"
| "py_int (VBool b) = Inr (if b then 1 else 0)"
| "py_int (VStr s) = (case py_int_str s of None \<Rightarrow> Inl ValueError | Some n \<Rightarrow> Inr n)"
| "py_int (VFloat f) = float_trunc f"
| "py_int _ = Inl TypeError"

text \<open>\<^verbatim>\<open>int(x or 0)\<close> and \<^verbatim>\<open>list(x or [])\<close>\<close>

definition int_or0 :: "pyval \<Rightarrow> error + int" where
  "int_or0 x = rbind (or_else x (VInt 0)) py_int"

definition list_or_empty :: "pyval \<Rightarrow> error + pyval list" where
  "list_or_empty x = rbind (or_else x (VList [])) py_iter"

text \<open>
  \<^verbatim>\<open>float(x or 0)\<close>: a falsy value gives the float of 0; a float that is not zero stays as
  it is; an integer converts unless it is too large for a double (from \<open>2^1024 - 2^970\<close>
  on, \<^verbatim>\<open>OverflowError\<close>); a non-empty string is parsed or a \<^verbatim>\<open>ValueError\<close>; a non-empty list
  or dict is a \<^verbatim>\<open>TypeError\<close>.
\<close>

fun float_or0 :: "float_ops \<Rightarrow> pyval \<Rightarrow> error + pyfloat" where
  "float_or0 fl (VFloat f) = Inr (if float_is_zero f then float_of_int fl 0 else f)"
| "float_or0 fl VNone = Inr (float_of_int fl 0)"
| "float_or0 fl (VBool b) = Inr (float_of_int fl (if b then 1 else 0))"
| "float_or0 fl (VInt n) =
     (if \<bar>n\<bar> \<ge> 2 ^ 1024 - 2 ^ 970 then Inl OverflowError else Inr (float_of_int fl n))"
| "float_or0 fl (VStr s) =
     (if s = [] then Inr (float_of_int fl 0)
      else (case float_of_str fl s of None \<Rightarrow> Inl ValueError | Some f \<Rightarrow> Inr f))"
| "float_or0 fl (VList xs) = (if xs = [] then Inr (float_of_int fl 0) else Inl TypeError)"
| "float_or0 fl (VDict d) = (if d = [] then Inr (float_of_int fl 0) else Inl TypeError)"

text \<open>\<^verbatim>\<open>x <= 0\<close>\<close>

fun le_zero :: "pyval \<Rightarrow> error + bool" where
  "le_zero (VInt n) = Inr (n \<le> 0)"
| "le_zero (VBool b) = Inr (\<not> b)"
| "le_zero (VFloat f) = Inr (float_le_zero f)"
| "le_zero _ = Inl TypeError"

text \<open>
  Use of a value as a dict key. Strings and integers are hashable and equal only to
  themselves; lists and dicts are unhashable. \<^verbatim>\<open>True\<close>, \<^verbatim>\<open>1\<close> and \<^verbatim>\<open>1.0\<close> are the same key
  to Python, which structural equality does not say: booleans and floats as keys are left
  out.
\<close>

fun as_key :: "pyval \<Rightarrow> error + pyval" where
  "as_key (VStr s) = Inr (VStr s)"
| "as_key (VInt n) = Inr (VInt n)"
| "as_key VNone = Inr VNone"
| "as_key (VBool b) = Inl Unmodelled"
| "as_key (VFloat f) = Inl Unmodelled"
| "as_key (VList xs) = Inl TypeError"
| "as_key (VDict d) = Inl TypeError"

text \<open>
  \<^verbatim>\<open>sorted(xs, key=f)\<close> and \<^verbatim>\<open>xs.sort(key=f)\<close>: the keys are computed first, in order,
  then the list is sorted by them; the sort is stable.
\<close>

definition sorted_by :: "('a \<Rightarrow> error + 'k::linorder) \<Rightarrow> 'a list \<Rightarrow> error + 'a list" where
  "sorted_by f xs = rbind (mapM f xs) (\<lambda>ks. Inr (map snd (sort_key fst (zip ks xs))))"

section \<open>Report data (trendradar/report/generator.py)\<close>

definition PERSONAL_RSS_GROUP_KEY :: pstr where
  "PERSONAL_RSS_GROUP_KEY = [20010, 20154, 21338, 23458, 26356, 26032]"

text \<open>\<^verbatim>\<open>s.get("word") == PERSONAL_RSS_GROUP_KEY\<close>\<close>

definition is_personal :: "pyval \<Rightarrow> error + bool" where
  "is_personal s = rbind (py_get s (key ''word'') VNone) (\<lambda>w. Inr (w = VStr PERSONAL_RSS_GROUP_KEY))"

text \<open>The two list comprehensions over \<^verbatim>\<open>rss_stats\<close> (and over \<^verbatim>\<open>rss_new_stats\<close>): the
  entries with the personal key and the others.\<close>

definition split_personal :: "pyval list \<Rightarrow> error + (pyval list \<times> pyval list)" where
  "split_personal xs =
     rbind (mapM is_personal xs) (\<lambda>bs.
       Inr (map snd (filter fst (zip bs xs)), map snd (filter (\<lambda>p. \<not> fst p) (zip bs xs))))"

subsection \<open>Merging keyword RSS stats into the hot-list stats\<close>

text \<open>\<^verbatim>\<open>merged_by_word\<close>: from the word to a copy of the entry, in insertion order.\<close>

type_synonym merged_map = "(pyval \<times> (pstr \<times> pyval) list) list"

text \<open>The first loop: \<^verbatim>\<open>merged_by_word[word] = dict(stat)\<close> for every entry with a truthy
  word.\<close>

definition add_primary :: "merged_map \<Rightarrow> pyval \<Rightarrow> error + merged_map" where
  "add_primary m stat =
     rbind (py_get stat (key ''word'') VNone) (\<lambda>word.
     rbind (truthy word) (\<lambda>t.
       if \<not> t then Inr m
       else rbind (as_key word) (\<lambda>k.
            rbind (py_items stat) (\<lambda>d. Inr (AList.update k d m)))))"

text \<open>\<^verbatim>\<open>min(int(merged_position), int(rss_position))\<close> under its \<^verbatim>\<open>try\<close>: the value
  stored in \<^verbatim>\<open>merged["position"]\<close>.\<close>

definition position_min :: "pyval \<Rightarrow> pyval \<Rightarrow> error + pyval" where
  "position_min merged_position rss_position =
     (case py_int merged_position of
        Inl e \<Rightarrow> if caught e then Inr merged_position else Inl e
      | Inr a \<Rightarrow>
          (case py_int rss_position of
             Inl e \<Rightarrow> if caught e then Inr merged_position else Inl e
           | Inr b \<Rightarrow> Inr (VInt (min a b))))"

text \<open>The sum of the two percentages under its \<^verbatim>\<open>try\<close>: \<open>Some\<close> the float to store,
  \<open>None\<close> when a caught exception leaves the entry as it is.\<close>

definition percentage_sum :: "float_ops \<Rightarrow> pyval \<Rightarrow> pyval \<Rightarrow> error + pyval option" where
  "percentage_sum fl a b =
     (case float_or0 fl a of
        Inl e \<Rightarrow> if caught e then Inr None else Inl e
      | Inr x \<Rightarrow>
          (case float_or0 fl b of
             Inl e \<Rightarrow> if caught e then Inr None else Inl e
           | Inr y \<Rightarrow> Inr (Some (VFloat (float_add fl x y)))))"

text \<open>The branch \<^verbatim>\<open>if word in merged_by_word\<close>: the entry \<open>merged\<close> updated from
  \<open>rss_stat\<close>.\<close>

definition merge_entry ::
  "float_ops \<Rightarrow> (pstr \<times> pyval) list \<Rightarrow> (pstr \<times> pyval) list \<Rightarrow> error + (pstr \<times> pyval) list" where
  "merge_entry fl merged rss_stat =
     rbind (int_or0 (dict_get merged (key ''count'') (VInt 0))) (\<lambda>c1.
     rbind (int_or0 (dict_get rss_stat (key ''count'') (VInt 0))) (\<lambda>c2.
     let m1 = dict_set merged (key ''count'') (VInt (c1 + c2)) in
     rbind (list_or_empty (dict_get m1 (key ''titles'') (VList []))) (\<lambda>t1.
     rbind (list_or_empty (dict_get rss_stat (key ''titles'') (VList []))) (\<lambda>t2.
     let m2 = dict_set m1 (key ''titles'') (VList (t1 @ t2));
         merged_position = dict_get m2 (key ''position'') (VInt 999);
         rss_position = dict_get rss_stat (key ''position'') (VInt 999)
     in
     rbind (position_min merged_position rss_position) (\<lambda>p.
     let m3 = dict_set m2 (key ''position'') p in
     rbind (percentage_sum fl (dict_get m3 (key ''percentage'') (VInt 0))
              (dict_get rss_stat (key ''percentage'') (VInt 0))) (\<lambda>q.
       Inr (case q of None \<Rightarrow> m3 | Some v \<Rightarrow> dict_set m3 (key ''percentage'') v)))))))"

text \<open>The body of the second loop, for one keyword RSS entry.\<close>

definition add_rss :: "float_ops \<Rightarrow> merged_map \<Rightarrow> pyval \<Rightarrow> error + merged_map" where
  "add_rss fl m rss_stat =
     rbind (py_get rss_stat (key ''word'') VNone) (\<lambda>word.
     rbind (truthy word) (\<lambda>t.
       if \<not> t then Inr m
       else rbind (as_key word) (\<lambda>k.
            rbind (py_items rss_stat) (\<lambda>d.
              case map_of m k of
                Some merged \<Rightarrow> rbind (merge_entry fl merged d) (\<lambda>merged'. Inr (AList.update k merged' m))
              | None \<Rightarrow> Inr (AList.update k d m)))))"

text \<open>The sort key \<^verbatim>\<open>(-int(x.get("count", 0) or 0), int(x.get("position", 999) or 999))\<close>.\<close>

definition stat_sort_key :: "(pstr \<times> pyval) list \<Rightarrow> error + (int \<times> int)" where
  "stat_sort_key x =
     rbind (int_or0 (dict_get x (key ''count'') (VInt 0))) (\<lambda>c.
     rbind (rbind (or_else (dict_get x (key ''position'') (VInt 999)) (VInt 999)) py_int) (\<lambda>p.
       Inr (- c, p)))"

text \<open>The two loops that fill \<^verbatim>\<open>merged_by_word\<close>.\<close>

definition merged_by_word :: "float_ops \<Rightarrow> pyval \<Rightarrow> pyval list \<Rightarrow> error + merged_map" where
  "merged_by_word fl stats0 rss_keyword_stats =
     rbind (or_else stats0 (VList [])) (\<lambda>s.
     rbind (py_iter s) (\<lambda>primary.
     rbind (foldM add_primary [] primary) (\<lambda>m1.
       foldM (add_rss fl) m1 rss_keyword_stats)))"

text \<open>Lines 60 to 101: the stats after the merge, when there is a keyword RSS entry.\<close>

definition merge_stats :: "float_ops \<Rightarrow> pyval \<Rightarrow> pyval list \<Rightarrow> error + pyval list" where
  "merge_stats fl stats0 rss_keyword_stats =
     rbind (merged_by_word fl stats0 rss_keyword_stats) (\<lambda>m.
     rbind (sorted_by stat_sort_key (map snd m)) (\<lambda>sorted_stats.
       Inr (map VDict sorted_stats)))"

subsection \<open>Regrouping the personal feeds\<close>

text \<open>\<^verbatim>\<open>min(ranks)\<close> for a truthy \<open>ranks\<close>: of a list of integers, of a one-element list,
  of a list of strings, of the characters of a string, of the keys of a dict. Other lists
  need comparisons between values of different types and are not modelled.\<close>

definition is_intlike :: "pyval \<Rightarrow> bool" where
  "is_intlike v = (case v of VInt n \<Rightarrow> True | VBool b \<Rightarrow> True | _ \<Rightarrow> False)"

definition intlike_value :: "pyval \<Rightarrow> int" where
  "intlike_value v = (case v of VInt n \<Rightarrow> n | VBool b \<Rightarrow> (if b then 1 else 0) | _ \<Rightarrow> 0)"

definition is_str :: "pyval \<Rightarrow> bool" where
  "is_str v = (case v of VStr s \<Rightarrow> True | _ \<Rightarrow> False)"

definition str_value :: "pyval \<Rightarrow> pstr" where
  "str_value v = (case v of VStr s \<Rightarrow> s | _ \<Rightarrow> [])"

text \<open>\<^verbatim>\<open>int(min(ranks))\<close>\<close>

fun int_min :: "pyval \<Rightarrow> error + int" where
  "int_min (VList xs) =
     (if xs = [] then Inl ValueError
      else if list_all is_intlike xs then Inr (Min (set (map intlike_value xs)))
      else if length xs = 1 then py_int (hd xs)
      else if list_all is_str xs then py_int (VStr (Min (set (map str_value xs))))
      else Inl Unmodelled)"
| "int_min (VStr s) = (if s = [] then Inl ValueError else py_int (VStr [Min (set s)]))"
| "int_min (VDict d) = (if d = [] then Inl ValueError else py_int (VStr (Min (set (map fst d)))))"
| "int_min _ = Inl TypeError"

text \<open>\<^verbatim>\<open>_rank_key\<close>\<close>

definition rank_key :: "pyval \<Rightarrow> error + int" where
  "rank_key item =
     rbind (py_get item (key ''ranks'') (VList [])) (\<lambda>ranks.
     rbind (truthy ranks) (\<lambda>t.
       if \<not> t then Inr 999
       else (case int_min ranks of
               Inl e \<Rightarrow> if caught e then Inr 999 else Inl e
             | Inr n \<Rightarrow> Inr n)))"

text \<open>\<^verbatim>\<open>titles_by_feed.setdefault(feed_name, []).append(title_data)\<close>\<close>

definition add_to_feed :: "(pyval \<times> pyval list) list \<Rightarrow> pyval \<Rightarrow> error + (pyval \<times> pyval list) list" where
  "add_to_feed by_feed title_data =
     rbind (py_get title_data (key ''source_name'') (VStr [])) (\<lambda>sn.
     rbind (or_else sn (VStr [82, 83, 83])) (\<lambda>feed_name.
     rbind (as_key feed_name) (\<lambda>k.
       Inr (case map_of by_feed k of
              None \<Rightarrow> by_feed @ [(k, [title_data])]
            | Some items \<Rightarrow> AList.update k (items @ [title_data]) by_feed))))"

text \<open>The display copy of an item: \<^verbatim>\<open>source_name\<close> and \<^verbatim>\<open>ranks\<close> cleared.\<close>

definition clean_item :: "pyval \<Rightarrow> error + pyval" where
  "clean_item item =
     rbind (py_items item) (\<lambda>d.
       Inr (VDict (dict_set (dict_set d (key ''source_name'') (VStr [])) (key ''ranks'') (VList []))))"

text \<open>One feed: its name, its cleaned items in rank order, and the rank of the first.\<close>

definition summarize_feed :: "pyval \<times> pyval list \<Rightarrow> error + (pyval \<times> pyval list \<times> int)" where
  "summarize_feed f =
     rbind (sorted_by rank_key (snd f)) (\<lambda>sorted_items.
     rbind (mapM clean_item sorted_items) (\<lambda>cleaned_items.
     rbind (case sorted_items of [] \<Rightarrow> Inr 999 | x # _ \<Rightarrow> rank_key x) (\<lambda>latest_rank.
       Inr (fst f, cleaned_items, latest_rank))))"

text \<open>The key of the sort of the feeds, \<^verbatim>\<open>(x[2], -len(x[1]), x[0])\<close>. Feed names are
  compared only to break a tie of the first two components; the outcome is modelled
  when all names are strings.\<close>

definition feed_sort_key :: "pyval \<times> pyval list \<times> int \<Rightarrow> error + (int \<times> int \<times> pstr)" where
  "feed_sort_key x =
     (case fst x of
        VStr s \<Rightarrow> Inr (snd (snd x), - int (length (fst (snd x))), s)
      | _ \<Rightarrow> Inl Unmodelled)"

definition feed_entry :: "nat \<times> (pyval \<times> pyval list \<times> int) \<Rightarrow> pyval" where
  "feed_entry p =
     VDict [(key ''word'', fst (snd p)),
            (key ''count'', VInt (int (length (fst (snd (snd p)))))),
            (key ''position'', VInt (int (fst p))),
            (key ''titles'', VList (fst (snd (snd p)))),
            (key ''percentage'', VInt 0)]"

text \<open>Lines 104 to 153.\<close>

definition personal_feeds :: "pyval list \<Rightarrow> error + pyval list" where
  "personal_feeds personal_rss_stats =
     (if personal_rss_stats = [] then Inr []
      else
        rbind (mapM (\<lambda>stat. rbind (py_get stat (key ''titles'') (VList [])) list_or_empty)
                 personal_rss_stats) (\<lambda>tss.
        rbind (foldM add_to_feed [] (concat tss)) (\<lambda>titles_by_feed.
        rbind (mapM summarize_feed titles_by_feed) (\<lambda>feed_summaries.
        rbind (sorted_by feed_sort_key feed_summaries) (\<lambda>sorted_feeds.
          Inr (map feed_entry (enumerate 0 sorted_feeds)))))))"

subsection \<open>The new titles\<close>

text \<open>
  The two injected callables: the matcher, applied to a title and the loaded rulebook,
  and the loader. Each may raise; the matcher's result is used as a truth value. \<open>None\<close>
  stands for an argument left at \<^verbatim>\<open>None\<close>.
\<close>

definition filter_titles ::
  "(pstr \<Rightarrow> 'r \<Rightarrow> error + pyval) \<Rightarrow> 'r \<Rightarrow> pyval \<Rightarrow> error + (pstr \<times> pyval) list" where
  "filter_titles mfunc rulebook titles_data =
     rbind (py_items titles_data) (\<lambda>items.
     rbind (mapM (\<lambda>kv. rbind (mfunc (fst kv) rulebook) truthy) items) (\<lambda>bs.
       Inr (map snd (filter fst (zip bs items)))))"

definition filter_new_titles ::
  "(pstr \<Rightarrow> 'r \<Rightarrow> error + pyval) \<Rightarrow> 'r \<Rightarrow> (pstr \<times> pyval) list \<Rightarrow> error + (pstr \<times> pyval) list" where
  "filter_new_titles mfunc rulebook sources =
     rbind (mapM (\<lambda>kv. rbind (filter_titles mfunc rulebook (snd kv)) (\<lambda>ft. Inr (fst kv, VDict ft)))
              sources) (\<lambda>fs.
       Inr (filter (\<lambda>kv. snd kv \<noteq> VDict []) fs))"

definition new_title_entry :: "pyval \<Rightarrow> pyval \<Rightarrow> pstr \<times> pyval \<Rightarrow> error + pyval" where
  "new_title_entry source_name rank_threshold kv =
     rbind (py_get (snd kv) (key ''url'') (VStr [])) (\<lambda>url.
     rbind (py_get (snd kv) (key ''mobileUrl'') (VStr [])) (\<lambda>mobile_url.
     rbind (py_get (snd kv) (key ''ranks'') (VList [])) (\<lambda>ranks.
       Inr (VDict [(key ''title'', VStr (fst kv)),
                   (key ''source_name'', source_name),
                   (key ''time_display'', VStr []),
                   (key ''count'', VInt 1),
                   (key ''ranks'', ranks),
                   (key ''rank_threshold'', rank_threshold),
                   (key ''url'', url),
                   (key ''mobile_url'', mobile_url),
                   (key ''is_new'', VBool True)]))))"

definition new_source_entry ::
  "(pstr \<times> pyval) list \<Rightarrow> pyval \<Rightarrow> pstr \<times> pyval \<Rightarrow> error + pyval list" where
  "new_source_entry id_to_name rank_threshold kv =
     (let source_name = dict_get id_to_name (fst kv) (VStr (fst kv)) in
      rbind (py_items (snd kv)) (\<lambda>titles_data.
      rbind (mapM (new_title_entry source_name rank_threshold) titles_data) (\<lambda>source_titles.
        Inr (if source_titles = [] then []
             else [VDict [(key ''source_id'', VStr (fst kv)),
                          (key ''source_name'', source_name),
                          (key ''titles'', VList source_titles)]]))))"

text \<open>Lines 155 to 214: \<^verbatim>\<open>processed_new_titles\<close>.\<close>

definition process_new_titles ::
  "pyval \<Rightarrow> pyval \<Rightarrow> pstr \<Rightarrow> pyval \<Rightarrow> (pstr \<Rightarrow> 'r \<Rightarrow> error + pyval) option
     \<Rightarrow> (error + 'r) option \<Rightarrow> error + pyval list" where
  "process_new_titles new_titles0 id_to_name mode rank_threshold mfunc lfunc =
     (if mode = key ''incremental'' then Inr []
      else
        rbind (truthy new_titles0) (\<lambda>t1.
        rbind (if t1 then truthy id_to_name else Inr False) (\<lambda>both.
          if \<not> both then Inr []
          else
            rbind (case (mfunc, lfunc) of
                     (Some mf, Some lf) \<Rightarrow>
                       rbind lf (\<lambda>rulebook.
                       rbind (py_items new_titles0) (\<lambda>sources.
                         filter_new_titles mf rulebook sources))
                   | _ \<Rightarrow> py_items new_titles0) (\<lambda>filtered_new_titles.
            rbind (rbind (py_items new_titles0) (\<lambda>sources. mapM (\<lambda>kv. py_len (snd kv)) sources)) (\<lambda>_.
              if filtered_new_titles = [] then Inr []
              else
                rbind (py_items id_to_name) (\<lambda>names.
                rbind (mapM (new_source_entry names rank_threshold) filtered_new_titles) (\<lambda>es.
                  Inr (concat es))))))))"

subsection \<open>The final pass over the stats\<close>

text \<open>The normalized shape of one title (lines 223 to 233).\<close>

definition project_title :: "pyval \<Rightarrow> error + pyval" where
  "project_title title_data =
     rbind (py_item title_data (key ''title'')) (\<lambda>title.
     rbind (py_item title_data (key ''source_name'')) (\<lambda>source_name.
     rbind (py_item title_data (key ''time_display'')) (\<lambda>time_display.
     rbind (py_item title_data (key ''count'')) (\<lambda>cnt.
     rbind (py_item title_data (key ''ranks'')) (\<lambda>ranks.
     rbind (py_item title_data (key ''rank_threshold'')) (\<lambda>rank_threshold.
     rbind (py_get title_data (key ''url'') (VStr [])) (\<lambda>url.
     rbind (py_get title_data (key ''mobile_url'') VNone) (\<lambda>canonical.
     rbind (truthy canonical) (\<lambda>t.
     rbind (if t then Inr canonical else py_get title_data (key ''mobileUrl'') (VStr [])) (\<lambda>mobile_url.
     rbind (py_get title_data (key ''is_new'') (VBool False)) (\<lambda>is_new.
       Inr (VDict [(key ''title'', title),
                   (key ''source_name'', source_name),
                   (key ''time_display'', time_display),
                   (key ''count'', cnt),
                   (key ''ranks'', ranks),
                   (key ''rank_threshold'', rank_threshold),
                   (key ''url'', url),
                   (key ''mobile_url'', mobile_url),
                   (key ''is_new'', is_new)]))))))))))))"

text \<open>One stat entry of the final loop: nothing when its count is not positive, otherwise
  the emitted entry.\<close>

definition process_stat :: "pyval \<Rightarrow> error + pyval list" where
  "process_stat stat =
     rbind (py_item stat (key ''count'')) (\<lambda>c.
     rbind (le_zero c) (\<lambda>skip.
       if skip then Inr []
       else
         rbind (py_item stat (key ''titles'')) (\<lambda>ts.
         rbind (py_iter ts) (\<lambda>titles.
         rbind (mapM project_title titles) (\<lambda>processed_titles.
         rbind (py_item stat (key ''word'')) (\<lambda>word.
         rbind (py_item stat (key ''count'')) (\<lambda>c2.
         rbind (py_get stat (key ''percentage'') (VInt 0)) (\<lambda>pct.
           Inr [VDict [(key ''word'', word),
                       (key ''count'', c2),
                       (key ''percentage'', pct),
                       (key ''titles'', VList processed_titles)]]))))))))"

definition process_stats :: "pyval \<Rightarrow> error + pyval list" where
  "process_stats stats1 =
     rbind (py_iter stats1) (\<lambda>xs. rbind (mapM process_stat xs) (\<lambda>ys. Inr (concat ys)))"

subsection \<open>\<^verbatim>\<open>prepare_report_data\<close>\<close>

record payload =
  p_stats :: "pyval list"
  p_new_titles :: "pyval list"
  p_rss_stats :: "pyval list"
  p_rss_new_stats :: "pyval list"
  p_failed_ids :: pyval
  p_total_new_count :: int

text \<open>\<^verbatim>\<open>sum(len(source["titles"]) for source in processed_new_titles)\<close>, on the entries
  built above.\<close>

definition total_titles :: "pyval list \<Rightarrow> int" where
  "total_titles sources =
     sum_list (map (\<lambda>s. case s of
                          VDict d \<Rightarrow> (case dict_get d (key ''titles'') (VList []) of
                                        VList ts \<Rightarrow> int (length ts) | _ \<Rightarrow> 0)
                        | _ \<Rightarrow> 0) sources)"

definition prepare_report_data ::
  "float_ops \<Rightarrow> pyval \<Rightarrow> pyval \<Rightarrow> pyval \<Rightarrow> pyval \<Rightarrow> pstr \<Rightarrow> pyval
     \<Rightarrow> (pstr \<Rightarrow> 'r \<Rightarrow> error + pyval) option \<Rightarrow> (error + 'r) option
     \<Rightarrow> pyval \<Rightarrow> pyval \<Rightarrow> error + payload" where
  "prepare_report_data fl stats0 failed_ids new_titles0 id_to_name mode rank_threshold
       matches_word_groups_func load_frequency_words_func rss_stats0 rss_new_stats0 =
     rbind (or_else rss_stats0 (VList [])) (\<lambda>r1.
     rbind (or_else rss_new_stats0 (VList [])) (\<lambda>r2.
     rbind (py_iter r1) (\<lambda>rss_stats.
     rbind (split_personal rss_stats) (\<lambda>sp.
     rbind (py_iter r2) (\<lambda>rss_new_stats.
     rbind (split_personal rss_new_stats) (\<lambda>_.
     rbind (if snd sp \<noteq> [] then rbind (merge_stats fl stats0 (snd sp)) (\<lambda>ms. Inr (VList ms))
            else Inr stats0) (\<lambda>stats1.
     rbind (personal_feeds (fst sp)) (\<lambda>personal_feed_stats.
     rbind (process_new_titles new_titles0 id_to_name mode rank_threshold
              matches_word_groups_func load_frequency_words_func) (\<lambda>processed_new_titles.
     rbind (process_stats stats1) (\<lambda>processed_stats.
     rbind (or_else failed_ids (VList [])) (\<lambda>failed.
       Inr \<lparr>p_stats = processed_stats,
            p_new_titles = processed_new_titles,
            p_rss_stats = personal_feed_stats,
            p_rss_new_stats = [],
            p_failed_ids = failed,
            p_total_new_count = total_titles processed_new_titles\<rparr>)))))))))))"

section \<open>Specification-side notions for keyword matching\<close>

text \<open>The two look-around assertions of the pattern, on the code point before the match
  and on the rest of the title after it.\<close>

definition boundary_before :: "nat option \<Rightarrow> bool" where
  "boundary_before prev = (case prev of None \<Rightarrow> True | Some p \<Rightarrow> \<not> sre_class_alnum p)"

definition boundary_after :: "pstr \<Rightarrow> bool" where
  "boundary_after post = (case post of [] \<Rightarrow> True | c # _ \<Rightarrow> \<not> sre_class_alnum c)"

text \<open>The four non-ASCII letters that \<^verbatim>\<open>re.IGNORECASE\<close> identifies with ASCII letters.\<close>

definition ignorecase_extra :: "nat \<Rightarrow> bool" where
  "ignorecase_extra c = (c = 0x130 \<or> c = 0x131 \<or> c = 0x17F \<or> c = 0x212A)"

text \<open>
  The keyword occurs in the title, compared without regard to ASCII case, with no ASCII
  letter or digit immediately before or after the occurrence.
\<close>

definition boundary_occurrence :: "pstr \<Rightarrow> pstr \<Rightarrow> bool" where
  "boundary_occurrence keyword title =
     (\<exists>pre mid post. title = pre @ mid @ post
        \<and> map ascii_lower mid = map ascii_lower keyword
        \<and> (pre = [] \<or> \<not> is_ascii_alnum (last pre))
        \<and> (post = [] \<or> \<not> is_ascii_alnum (hd post)))"

text \<open>The lower-cased keyword is a substring of the lower-cased title.\<close>

definition ci_substring :: "(pstr \<Rightarrow> pstr) \<Rightarrow> pstr \<Rightarrow> pstr \<Rightarrow> bool" where
  "ci_substring ulower keyword title =
     (\<exists>pre post. py_lower ulower title = pre @ py_lower ulower keyword @ post)"

text \<open>A rulebook group with the single normal keyword \<^verbatim>\<open>AI\<close>.\<close>

definition ai_group :: word_group where
  "ai_group = \<lparr>required = None, normal = Some [[65, 73]], group_key = [65, 73], max_count = 0\<rparr>"

text \<open>The count that an \<^verbatim>\<open>@\<close> line carries: the integer after the \<^verbatim>\<open>@\<close> when \<^verbatim>\<open>int\<close> accepts
  it and it is positive.\<close>

definition at_count :: "pstr \<Rightarrow> int option" where
  "at_count word =
     (if startswith word [64] then
        (case py_int_str (tl word) of
           Some n \<Rightarrow> if n > 0 then Some n else None
         | None \<Rightarrow> None)
      else None)"

section \<open>Specification-side notions for the report data\<close>

text \<open>A field of an emitted entry.\<close>

definition entry_field :: "pyval \<Rightarrow> string \<Rightarrow> pyval option" where
  "entry_field e k = (case e of VDict d \<Rightarrow> map_of d (key k) | _ \<Rightarrow> None)"

text \<open>A count that is strictly greater than 0 (\<^verbatim>\<open>True\<close> counts as 1).\<close>

definition positive_count :: "pyval \<Rightarrow> bool" where
  "positive_count c =
     (case c of
        VInt n \<Rightarrow> n > 0
      | VBool b \<Rightarrow> b
      | VFloat f \<Rightarrow> (case f of FPosInf \<Rightarrow> True | FFinite m e \<Rightarrow> m > 0 | _ \<Rightarrow> False)
      | _ \<Rightarrow> False)"

text \<open>
  A float library for the examples: the conversion of an integer and the sum are exact,
  which is what Python computes as long as nothing has to be rounded; no string is read
  as a float. The examples hold small integers and no strings.
\<close>

fun example_add :: "pyfloat \<Rightarrow> pyfloat \<Rightarrow> pyfloat" where
  "example_add (FFinite m e) (FFinite n k) =
     FFinite (m * 2 ^ nat (e - min e k) + n * 2 ^ nat (k - min e k)) (min e k)"
| "example_add FNaN y = FNaN"
| "example_add x FNaN = FNaN"
| "example_add FPosInf FNegInf = FNaN"
| "example_add FNegInf FPosInf = FNaN"
| "example_add FPosInf y = FPosInf"
| "example_add FNegInf y = FNegInf"
| "example_add x FPosInf = FPosInf"
| "example_add x FNegInf = FNegInf"

definition example_floats :: float_ops where
  "example_floats =
     \<lparr>float_of_int = (\<lambda>n. FFinite n 0), float_of_str = (\<lambda>s. None), float_add = example_add\<rparr>"

text \<open>Every entry of \<^verbatim>\<open>merged_by_word\<close> has a truthy word.\<close>

definition words_truthy :: "merged_map \<Rightarrow> bool" where
  "words_truthy m = (\<forall>d \<in> snd ` set m. \<exists>w. map_of d (key ''word'') = Some w \<and> truthy w = Inr True)"

subsection \<open>Example entries\<close>

text \<open>A stat entry with count 0 and one title, and one with count 2.\<close>

definition zero_count_stat :: pyval where
  "zero_count_stat =
     VDict [(key ''word'', VStr [97]), (key ''count'', VInt 0),
            (key ''titles'', VList [VDict [(key ''title'', VStr [116])]])]"

definition positive_count_stat :: pyval where
  "positive_count_stat =
     VDict [(key ''word'', VStr [98]), (key ''count'', VInt 2), (key ''titles'', VList [])]"

text \<open>A stat entry whose count is the float not-a-number, and the entry emitted for
  it.\<close>

definition nan_count_stat :: pyval where
  "nan_count_stat =
     VDict [(key ''word'', VStr [110]), (key ''count'', VFloat FNaN), (key ''titles'', VList [])]"

definition nan_count_entry :: pyval where
  "nan_count_entry =
     VDict [(key ''word'', VStr [110]), (key ''count'', VFloat FNaN), (key ''percentage'', VInt 0),
            (key ''titles'', VList [])]"

definition positive_count_entry :: pyval where
  "positive_count_entry =
     VDict [(key ''word'', VStr [98]), (key ''count'', VInt 2), (key ''percentage'', VInt 0),
            (key ''titles'', VList [])]"

text \<open>A hot-list entry with the empty word and count 1, a keyword RSS entry with the
  word \<^verbatim>\<open>b\<close>, and what the final pass emits for each.\<close>

definition falsy_word_stat :: pyval where
  "falsy_word_stat = VDict [(key ''word'', VStr []), (key ''count'', VInt 1), (key ''titles'', VList [])]"

definition keyword_rss_stat :: pyval where
  "keyword_rss_stat = VDict [(key ''word'', VStr [98]), (key ''count'', VInt 2), (key ''titles'', VList [])]"

definition keyword_rss_entry :: pyval where
  "keyword_rss_entry =
     VDict [(key ''word'', VStr [98]), (key ''count'', VInt 2), (key ''percentage'', VInt 0),
            (key ''titles'', VList [])]"

definition falsy_word_entry :: pyval where
  "falsy_word_entry =
     VDict [(key ''word'', VStr []), (key ''count'', VInt 1), (key ''percentage'', VInt 0),
            (key ''titles'', VList [])]"

definition merged_payload :: payload where
  "merged_payload = \<lparr>p_stats = [keyword_rss_entry], p_new_titles = [], p_rss_stats = [],
      p_rss_new_stats = [], p_failed_ids = VList [], p_total_new_count = 0\<rparr>"

definition unmerged_payload :: payload where
  "unmerged_payload = \<lparr>p_stats = [falsy_word_entry], p_new_titles = [], p_rss_stats = [],
      p_rss_new_stats = [], p_failed_ids = VList [], p_total_new_count = 0\<rparr>"

text \<open>The mobile URL of a title record: the canonical field when it is present with a
  truthy value, otherwise the legacy field, otherwise the empty string.\<close>

definition spec_mobile_url :: "(pstr \<times> pyval) list \<Rightarrow> pyval" where
  "spec_mobile_url d =
     (case map_of d (key ''mobile_url'') of
        Some v \<Rightarrow> if truthy v = Inr True then v else dict_get d (key ''mobileUrl'') (VStr [])
      | None \<Rightarrow> dict_get d (key ''mobileUrl'') (VStr []))"

text \<open>A title record with both field names, the canonical one holding \<open>c\<close> and the
  legacy one \<^verbatim>\<open>m\<close>; its projection with the mobile URL \<open>mu\<close>; a stat entry with that
  title and the entry emitted for it.\<close>

definition url_title :: "pyval \<Rightarrow> pyval" where
  "url_title c =
     VDict [(key ''title'', VStr [116]), (key ''source_name'', VStr [115]),
            (key ''time_display'', VStr []), (key ''count'', VInt 1),
            (key ''ranks'', VList [VInt 1]), (key ''rank_threshold'', VInt 3),
            (key ''url'', VStr [117]), (key ''mobile_url'', c), (key ''mobileUrl'', VStr [109])]"

definition url_projected :: "pyval \<Rightarrow> pyval" where
  "url_projected mu =
     VDict [(key ''title'', VStr [116]), (key ''source_name'', VStr [115]),
            (key ''time_display'', VStr []), (key ''count'', VInt 1),
            (key ''ranks'', VList [VInt 1]), (key ''rank_threshold'', VInt 3),
            (key ''url'', VStr [117]), (key ''mobile_url'', mu), (key ''is_new'', VBool False)]"

definition url_stat :: "pyval \<Rightarrow> pyval" where
  "url_stat c = VDict [(key ''word'', VStr [119]), (key ''count'', VInt 1), (key ''titles'', VList [url_title c])]"

definition url_entry :: "pyval \<Rightarrow> pyval" where
  "url_entry mu =
     VDict [(key ''word'', VStr [119]), (key ''count'', VInt 1), (key ''percentage'', VInt 0),
            (key ''titles'', VList [url_projected mu])]"

text \<open>
  The readings of the fields of a stat entry that the merge relies on. A count is read
  with \<^verbatim>\<open>int\<close>, a missing, \<^verbatim>\<open>None\<close> or empty one as 0; a position is read with \<^verbatim>\<open>int\<close>; the
  titles are a list, a missing or \<^verbatim>\<open>None\<close> value being the empty list.
\<close>

definition coerced_count :: "pyval \<Rightarrow> int option" where
  "coerced_count v =
     (case v of
        VNone \<Rightarrow> Some 0
      | VBool b \<Rightarrow> Some (if b then 1 else 0)
      | VInt n \<Rightarrow> Some n
      | VFloat f \<Rightarrow>
          (if float_is_zero f then Some 0
           else (case float_trunc f of Inr n \<Rightarrow> Some n | Inl _ \<Rightarrow> None))
      | VStr s \<Rightarrow> if s = [] then Some 0 else py_int_str s
      | VList xs \<Rightarrow> if xs = [] then Some 0 else None
      | VDict d \<Rightarrow> if d = [] then Some 0 else None)"

definition coerced_position :: "pyval \<Rightarrow> int option" where
  "coerced_position v =
     (case v of
        VBool b \<Rightarrow> Some (if b then 1 else 0)
      | VInt n \<Rightarrow> Some n
      | VFloat f \<Rightarrow> (case float_trunc f of Inr n \<Rightarrow> Some n | Inl _ \<Rightarrow> None)
      | VStr s \<Rightarrow> py_int_str s
      | _ \<Rightarrow> None)"

definition titles_list :: "pyval \<Rightarrow> pyval list option" where
  "titles_list v = (case v of VNone \<Rightarrow> Some [] | VList xs \<Rightarrow> Some xs | _ \<Rightarrow> None)"

text \<open>A percentage that \<^verbatim>\<open>float\<close> does not refuse with \<^verbatim>\<open>OverflowError\<close>, the one
  exception of the sum of the percentages that is not caught: anything but an integer of
  magnitude \<open>2^1024 - 2^970\<close> or more.\<close>

definition percentage_ok :: "pyval \<Rightarrow> bool" where
  "percentage_ok v = (case v of VInt n \<Rightarrow> \<bar>n\<bar> < 2 ^ 1024 - 2 ^ 970 | _ \<Rightarrow> True)"

text \<open>The word of the example of the specification (two CJK characters), a hot-list
  entry with count 3 and an RSS entry with count 2 for it, and their merge.\<close>

definition chip_word :: pstr where
  "chip_word = [33455, 29255]"

definition chip_hot :: "(pstr \<times> pyval) list" where
  "chip_hot = [(key ''word'', VStr chip_word), (key ''count'', VInt 3),
               (key ''titles'', VList [VStr [104, 49], VStr [104, 50]]), (key ''position'', VInt 2)]"

definition chip_rss :: "(pstr \<times> pyval) list" where
  "chip_rss = [(key ''word'', VStr chip_word), (key ''count'', VInt 2),
               (key ''titles'', VList [VStr [114, 49]])]"

definition chip_merged :: "(pstr \<times> pyval) list" where
  "chip_merged = [(key ''word'', VStr chip_word), (key ''count'', VInt 5),
                  (key ''titles'', VList [VStr [104, 49], VStr [104, 50], VStr [114, 49]]),
                  (key ''position'', VInt 2), (key ''percentage'', VFloat (FFinite 0 0))]"

text \<open>The hot-list entry with the count \<^verbatim>\<open>"abc"\<close>.\<close>

definition chip_hot_abc :: "(pstr \<times> pyval) list" where
  "chip_hot_abc = [(key ''word'', VStr chip_word), (key ''count'', VStr [97, 98, 99]),
                   (key ''titles'', VList [])]"

text \<open>
  The order of the merged entries as the specification words it: by descending count,
  then by ascending position, an entry without a position counting as 999. The count and
  the position are read from integer fields.
\<close>

definition stat_count :: "(pstr \<times> pyval) list \<Rightarrow> int" where
  "stat_count d = (case map_of d (key ''count'') of Some (VInt n) \<Rightarrow> n | _ \<Rightarrow> 0)"

definition stat_position :: "(pstr \<times> pyval) list \<Rightarrow> int" where
  "stat_position d = (case map_of d (key ''position'') of Some (VInt n) \<Rightarrow> n | _ \<Rightarrow> 999)"

definition spec_sort_key :: "(pstr \<times> pyval) list \<Rightarrow> int \<times> int" where
  "spec_sort_key d = (- stat_count d, stat_position d)"

text \<open>An entry whose count is an integer or missing and whose position is an integer
  other than 0 or missing.\<close>

definition plain_sort_fields :: "(pstr \<times> pyval) list \<Rightarrow> bool" where
  "plain_sort_fields d =
     ((case map_of d (key ''count'') of None \<Rightarrow> True | Some (VInt n) \<Rightarrow> True | _ \<Rightarrow> False)
      \<and> (case map_of d (key ''position'') of None \<Rightarrow> True | Some (VInt n) \<Rightarrow> n \<noteq> 0 | _ \<Rightarrow> False))"

text \<open>The three entries of the example of the specification.\<close>

definition stat_A :: "(pstr \<times> pyval) list" where
  "stat_A = [(key ''word'', VStr [65]), (key ''count'', VInt 5)]"

definition stat_B :: "(pstr \<times> pyval) list" where
  "stat_B = [(key ''word'', VStr [66]), (key ''count'', VInt 5), (key ''position'', VInt 1)]"

definition stat_C :: "(pstr \<times> pyval) list" where
  "stat_C = [(key ''word'', VStr [67]), (key ''count'', VInt 7)]"

text \<open>Two hot-list entries and a keyword RSS entry for the word of the first, and the
  first entry after the merge.\<close>

definition stat_X :: "(pstr \<times> pyval) list" where
  "stat_X = [(key ''word'', VStr [88]), (key ''count'', VInt 1), (key ''position'', VInt 2)]"

definition stat_Y :: "(pstr \<times> pyval) list" where
  "stat_Y = [(key ''word'', VStr [89]), (key ''count'', VInt 3), (key ''position'', VInt 1)]"

definition rss_X :: "(pstr \<times> pyval) list" where
  "rss_X = [(key ''word'', VStr [88]), (key ''count'', VInt 5)]"

definition merged_X :: "(pstr \<times> pyval) list" where
  "merged_X = [(key ''word'', VStr [88]), (key ''count'', VInt 6), (key ''position'', VInt 2),
               (key ''titles'', VList []), (key ''percentage'', VFloat (FFinite 0 0))]"

text \<open>
  The regrouping of the personal feeds as the specification words it, on title records
  whose \<^verbatim>\<open>source_name\<close> is a string or missing and whose \<^verbatim>\<open>ranks\<close> are a list of integers
  or missing.
\<close>

definition RSS :: pstr where
  "RSS = [82, 83, 83]"

text \<open>The bucket of a title: its \<^verbatim>\<open>source_name\<close>, or \<^verbatim>\<open>RSS\<close> when that is empty or missing.\<close>

definition feed_name_of :: "pyval \<Rightarrow> pstr" where
  "feed_name_of t =
     (case entry_field t ''source_name'' of
        Some (VStr s) \<Rightarrow> if s = [] then RSS else s
      | _ \<Rightarrow> RSS)"

definition rank_value :: "pyval \<Rightarrow> int" where
  "rank_value v = (case v of VInt n \<Rightarrow> n | _ \<Rightarrow> 0)"

text \<open>The least of the ranks of a title, 999 when the ranks are empty or missing.\<close>

definition min_rank :: "pyval \<Rightarrow> int" where
  "min_rank t =
     (case entry_field t ''ranks'' of
        Some (VList rs) \<Rightarrow> if rs = [] then 999 else Min (set (map rank_value rs))
      | _ \<Rightarrow> 999)"

definition is_rank :: "pyval \<Rightarrow> bool" where
  "is_rank v = (case v of VInt n \<Rightarrow> True | _ \<Rightarrow> False)"

definition well_formed_title :: "pyval \<Rightarrow> bool" where
  "well_formed_title t =
     (case t of
        VDict d \<Rightarrow>
          (case map_of d (key ''source_name'') of
             None \<Rightarrow> True | Some (VStr s) \<Rightarrow> True | _ \<Rightarrow> False)
          \<and> (case map_of d (key ''ranks'') of
               None \<Rightarrow> True | Some (VList rs) \<Rightarrow> list_all is_rank rs | _ \<Rightarrow> False)
      | _ \<Rightarrow> False)"

text \<open>The titles of a stat entry, and a stat entry whose titles are well-formed.\<close>

definition titles_of :: "pyval \<Rightarrow> pyval list" where
  "titles_of s = (case entry_field s ''titles'' of Some (VList ts) \<Rightarrow> ts | _ \<Rightarrow> [])"

definition well_formed_stat :: "pyval \<Rightarrow> bool" where
  "well_formed_stat s =
     (case s of
        VDict d \<Rightarrow>
          (case map_of d (key ''titles'') of
             None \<Rightarrow> True | Some (VList ts) \<Rightarrow> list_all well_formed_title ts | _ \<Rightarrow> False)
      | _ \<Rightarrow> False)"

text \<open>The names of the feeds in the order of their first title, and the titles of one
  feed in the order of the input.\<close>

definition feed_names :: "pyval list \<Rightarrow> pstr list" where
  "feed_names ts = rev (remdups (rev (map feed_name_of ts)))"

definition bucket :: "pyval list \<Rightarrow> pstr \<Rightarrow> pyval list" where
  "bucket ts n = filter (\<lambda>t. feed_name_of t = n) ts"

text \<open>The display copy of a title: \<^verbatim>\<open>source_name\<close> and \<^verbatim>\<open>ranks\<close> emptied.\<close>

definition display_copy :: "pyval \<Rightarrow> pyval" where
  "display_copy t =
     (case t of
        VDict d \<Rightarrow> VDict (dict_set (dict_set d (key ''source_name'') (VStr [])) (key ''ranks'') (VList []))
      | _ \<Rightarrow> t)"

text \<open>The digest of one feed: its name, the display copies of its titles sorted by their
  least rank, and the least rank of the first of them.\<close>

definition digest :: "pyval list \<Rightarrow> pstr \<Rightarrow> pstr \<times> pyval list \<times> int" where
  "digest ts n =
     (let items = sort_key min_rank (bucket ts n)
      in (n, map display_copy items, (case items of [] \<Rightarrow> 999 | x # _ \<Rightarrow> min_rank x)))"

text \<open>The order of the feeds: latest rank ascending, number of items descending, name
  ascending.\<close>

definition digest_key :: "pstr \<times> pyval list \<times> int \<Rightarrow> int \<times> int \<times> pstr" where
  "digest_key g = (snd (snd g), - int (length (fst (snd g))), fst g)"

definition digest_entry :: "nat \<times> (pstr \<times> pyval list \<times> int) \<Rightarrow> pyval" where
  "digest_entry p =
     VDict [(key ''word'', VStr (fst (snd p))),
            (key ''count'', VInt (int (length (fst (snd (snd p)))))),
            (key ''position'', VInt (int (fst p))),
            (key ''titles'', VList (fst (snd (snd p)))),
            (key ''percentage'', VInt 0)]"

definition spec_regroup :: "pyval list \<Rightarrow> pyval list" where
  "spec_regroup ts =
     map digest_entry (enumerate 0 (sort_key digest_key (map (digest ts) (feed_names ts))))"

text \<open>The buckets in the order of their first title: what \<^verbatim>\<open>titles_by_feed\<close> holds after the
  loop over the titles \<open>ts\<close>.\<close>

definition buckets :: "pyval list \<Rightarrow> (pyval \<times> pyval list) list" where
  "buckets ts = map (\<lambda>n. (VStr n, bucket ts n)) (feed_names ts)"

text \<open>A digest with its name as a value, as the code keeps it.\<close>

definition named :: "pstr \<times> pyval list \<times> int \<Rightarrow> pyval \<times> pyval list \<times> int" where
  "named g = (VStr (fst g), snd g)"

text \<open>
  The example of the specification: one personal-feed group with two titles of
  \<^verbatim>\<open>Feed1\<close>, of ranks 5 and 2 in this order, and one title of \<^verbatim>\<open>Feed2\<close>, of rank 1; and the
  two entries that the regrouping gives, \<^verbatim>\<open>Feed2\<close> first.
\<close>

definition feed_title :: "nat \<Rightarrow> pstr \<Rightarrow> int \<Rightarrow> pyval" where
  "feed_title c n r =
     VDict [(key ''title'', VStr [c]), (key ''source_name'', VStr n), (key ''ranks'', VList [VInt r])]"

definition shown_title :: "nat \<Rightarrow> pyval" where
  "shown_title c =
     VDict [(key ''title'', VStr [c]), (key ''source_name'', VStr []), (key ''ranks'', VList [])]"

definition Feed1 :: pstr where
  "Feed1 = [70, 101, 101, 100, 49]"

definition Feed2 :: pstr where
  "Feed2 = [70, 101, 101, 100, 50]"

definition feeds_example :: pyval where
  "feeds_example =
     VDict [(key ''word'', VStr PERSONAL_RSS_GROUP_KEY), (key ''count'', VInt 3),
            (key ''titles'', VList [feed_title 97 Feed1 5, feed_title 98 Feed1 2,
                                     feed_title 99 Feed2 1])]"

definition feeds_example_result :: "pyval list" where
  "feeds_example_result =
     [VDict [(key ''word'', VStr Feed2), (key ''count'', VInt 1), (key ''position'', VInt 0),
             (key ''titles'', VList [shown_title 99]), (key ''percentage'', VInt 0)],
      VDict [(key ''word'', VStr Feed1), (key ''count'', VInt 2), (key ''position'', VInt 1),
             (key ''titles'', VList [shown_title 98, shown_title 97]), (key ''percentage'', VInt 0)]]"

text \<open>A group with a title that has no \<^verbatim>\<open>source_name\<close> and one whose \<^verbatim>\<open>source_name\<close> is
  empty and that has no ranks.\<close>

definition unnamed_example :: pyval where
  "unnamed_example =
     VDict [(key ''titles'',
             VList [VDict [(key ''title'', VStr [121]), (key ''source_name'', VStr [])],
                    VDict [(key ''title'', VStr [120]), (key ''ranks'', VList [VInt 3])]])]"

text \<open>A group with one title whose \<^verbatim>\<open>source_name\<close> is a space.\<close>

definition space_name_example :: pyval where
  "space_name_example = VDict [(key ''titles'', VList [feed_title 97 [32] 1])]"

section \<open>Properties of the keyword matcher\<close>

subsection \<open>What the compiled pattern finds\<close>

lemma sre_literals_iff:
  "sre_literals pat t \<longleftrightarrow> (\<exists>mid post. t = mid @ post \<and> list_all2 sre_literal pat mid)"
proof (induction pat t rule: sre_literals.induct)
  case (1 t)
  then show ?case by simp
next
  case (2 l ls)
  then show ?case by simp
next
  case (3 l ls c cs)
  show ?case
  proof
    assume "sre_literals (l # ls) (c # cs)"
    then have a: "sre_literal l c" and b: "sre_literals ls cs" by simp_all
    from b 3 obtain mid post where "cs = mid @ post" "list_all2 sre_literal ls mid" by blast
    then have "c # cs = (c # mid) @ post \<and> list_all2 sre_literal (l # ls) (c # mid)"
      using a by simp
    then show "\<exists>mid post. c # cs = mid @ post \<and> list_all2 sre_literal (l # ls) mid" by blast
  next
    assume "\<exists>mid post. c # cs = mid @ post \<and> list_all2 sre_literal (l # ls) mid"
    then obtain mid post where m: "c # cs = mid @ post" "list_all2 sre_literal (l # ls) mid" by blast
    then obtain m ms where mm: "mid = m # ms" "sre_literal l m" "list_all2 sre_literal ls ms"
      by (auto simp: list_all2_Cons1)
    with m have "c = m" "cs = ms @ post" by simp_all
    with mm 3 show "sre_literals (l # ls) (c # cs)" by auto
  qed
qed

lemma match_here_iff:
  "match_here pat prev t \<longleftrightarrow>
     (boundary_before prev \<and> (\<exists>mid post. t = mid @ post \<and> list_all2 sre_literal pat mid \<and> boundary_after post))"
proof
  assume "match_here pat prev t"
  then have a: "boundary_before prev" and b: "sre_literals pat t"
    and c: "boundary_after (drop (length pat) t)"
    by (simp_all add: match_here_def boundary_before_def boundary_after_def)
  from b obtain mid post where m: "t = mid @ post" "list_all2 sre_literal pat mid"
    using sre_literals_iff by blast
  then have "length pat = length mid" by (simp add: list_all2_lengthD)
  with m c have "boundary_after post" by simp
  with a m show "boundary_before prev \<and> (\<exists>mid post. t = mid @ post \<and> list_all2 sre_literal pat mid \<and> boundary_after post)"
    by blast
next
  assume "boundary_before prev \<and> (\<exists>mid post. t = mid @ post \<and> list_all2 sre_literal pat mid \<and> boundary_after post)"
  then obtain mid post where a: "boundary_before prev" and m: "t = mid @ post" "list_all2 sre_literal pat mid"
     "boundary_after post" by blast
  then have l: "length pat = length mid" by (simp add: list_all2_lengthD)
  have "sre_literals pat t" using m sre_literals_iff by blast
  with a m l show "match_here pat prev t"
    by (simp add: match_here_def boundary_before_def boundary_after_def)
qed

lemma pattern_search_iff:
  "pattern_search pat prev t \<longleftrightarrow>
     (\<exists>pre mid post. t = pre @ mid @ post \<and> list_all2 sre_literal pat mid
        \<and> boundary_before (if pre = [] then prev else Some (last pre)) \<and> boundary_after post)"
proof (induction t arbitrary: prev)
  case Nil
  show ?case by (auto simp: match_here_iff)
next
  case (Cons c cs)
  show ?case
  proof
    assume "pattern_search pat prev (c # cs)"
    then consider "match_here pat prev (c # cs)" | "pattern_search pat (Some c) cs" by auto
    then show "\<exists>pre mid post. c # cs = pre @ mid @ post \<and> list_all2 sre_literal pat mid
        \<and> boundary_before (if pre = [] then prev else Some (last pre)) \<and> boundary_after post"
    proof cases
      case 1
      then obtain mid post where "c # cs = [] @ mid @ post" "list_all2 sre_literal pat mid"
        "boundary_before prev" "boundary_after post" by (auto simp: match_here_iff)
      then have "c # cs = [] @ mid @ post \<and> list_all2 sre_literal pat mid
        \<and> boundary_before (if ([]::pstr) = [] then prev else Some (last [])) \<and> boundary_after post"
        by simp
      then show ?thesis by blast
    next
      case 2
      with Cons obtain pre mid post where p: "cs = pre @ mid @ post" "list_all2 sre_literal pat mid"
        "boundary_before (if pre = [] then Some c else Some (last pre))" "boundary_after post" by blast
      have "c # cs = (c # pre) @ mid @ post \<and> list_all2 sre_literal pat mid
        \<and> boundary_before (if c # pre = [] then prev else Some (last (c # pre)))
        \<and> boundary_after post"
        using p by (cases "pre = []") simp_all
      then show ?thesis by blast
    qed
  next
    assume "\<exists>pre mid post. c # cs = pre @ mid @ post \<and> list_all2 sre_literal pat mid
        \<and> boundary_before (if pre = [] then prev else Some (last pre)) \<and> boundary_after post"
    then obtain pre mid post where p: "c # cs = pre @ mid @ post" "list_all2 sre_literal pat mid"
        "boundary_before (if pre = [] then prev else Some (last pre))" "boundary_after post" by blast
    show "pattern_search pat prev (c # cs)"
    proof (cases pre)
      case Nil
      with p have "match_here pat prev (c # cs)" by (auto simp: match_here_iff)
      then show ?thesis by simp
    next
      case (Cons a pre')
      with p have cs: "a = c" "cs = pre' @ mid @ post" by simp_all
      have "boundary_before (if pre' = [] then Some c else Some (last pre'))"
        using p(3) Cons cs by (cases "pre' = []") simp_all
      with cs p have "pattern_search pat (Some c) cs" using Cons.IH by blast
      then show ?thesis by simp
    qed
  qed
qed

subsection \<open>Substring containment\<close>

lemma startswith_iff: "startswith s p \<longleftrightarrow> (\<exists>post. s = p @ post)"
  by (induction s p rule: startswith.induct) auto

lemma str_contains_iff: "str_contains needle hay \<longleftrightarrow> (\<exists>pre post. hay = pre @ needle @ post)"
proof (induction hay)
  case Nil
  then show ?case by simp
next
  case (Cons c cs)
  show ?case
  proof
    assume "str_contains needle (c # cs)"
    then consider "startswith (c # cs) needle" | "str_contains needle cs" by auto
    then show "\<exists>pre post. c # cs = pre @ needle @ post"
    proof cases
      case 1
      then obtain post where "c # cs = [] @ needle @ post" by (auto simp: startswith_iff)
      then show ?thesis by blast
    next
      case 2
      with Cons obtain pre post where "cs = pre @ needle @ post" by blast
      then have "c # cs = (c # pre) @ needle @ post" by simp
      then show ?thesis by blast
    qed
  next
    assume "\<exists>pre post. c # cs = pre @ needle @ post"
    then obtain pre post where p: "c # cs = pre @ needle @ post" by blast
    show "str_contains needle (c # cs)"
    proof (cases pre)
      case Nil
      with p have "startswith (c # cs) needle" by (simp add: startswith_iff)
      then show ?thesis by simp
    next
      case (Cons a pre')
      with p have "cs = pre' @ needle @ post" by simp
      then have "str_contains needle cs" using Cons.IH by blast
      then show ?thesis by simp
    qed
  qed
qed

subsection \<open>The pattern on titles without the four extra letters\<close>

lemma sre_class_alnum_plain: "\<not> ignorecase_extra c \<Longrightarrow> sre_class_alnum c = is_ascii_alnum c"
  by (simp add: sre_class_alnum_def ignorecase_extra_def)

lemma sre_literal_plain:
  assumes "is_ascii_alnum k" "\<not> ignorecase_extra c"
  shows "sre_literal (ascii_lower k) c \<longleftrightarrow> ascii_lower c = ascii_lower k"
  using assms
  by (auto simp: sre_literal_def ascii_lower_def ignorecase_extra_def is_ascii_alnum_def
      is_ascii_digit_def is_ascii_upper_def is_ascii_lower_def)

lemma sre_literals_plain:
  assumes "list_all is_ascii_alnum kw" "list_all (\<lambda>c. \<not> ignorecase_extra c) mid"
  shows "list_all2 sre_literal (map ascii_lower kw) mid \<longleftrightarrow> map ascii_lower mid = map ascii_lower kw"
  using assms
proof (induction kw arbitrary: mid)
  case Nil
  then show ?case by auto
next
  case (Cons k ks)
  show ?case
  proof (cases mid)
    case Nil
    then show ?thesis by simp
  next
    case (Cons m ms)
    then show ?thesis using Cons.prems Cons.IH[of ms] sre_literal_plain[of k m] by auto
  qed
qed

lemma is_ascii_alnum_ascii: "is_ascii_alnum c \<Longrightarrow> is_ascii c"
  by (auto simp: is_ascii_alnum_def is_ascii_def is_ascii_digit_def is_ascii_upper_def is_ascii_lower_def)

lemma should_use_ascii_word_boundary_iff:
  "should_use_ascii_word_boundary kw \<longleftrightarrow> 2 \<le> length kw \<and> length kw \<le> 4 \<and> list_all is_ascii_alnum kw"
  by (auto simp: should_use_ascii_word_boundary_def isascii_def isalnum_ascii_def list_all_iff
      is_ascii_alnum_ascii)

lemma boundary_rule:
  assumes b: "should_use_ascii_word_boundary kw"
    and t: "list_all (\<lambda>c. \<not> ignorecase_extra c) title"
  shows "keyword_in_title ul title tlow kw \<longleftrightarrow> boundary_occurrence kw title"
proof -
  from b have al: "list_all is_ascii_alnum kw" and ne: "kw \<noteq> []"
    by (auto simp: should_use_ascii_word_boundary_iff)
  then have "isascii kw" by (auto simp: isascii_def list_all_iff is_ascii_alnum_ascii)
  then have low: "py_lower ul kw = map ascii_lower kw" by (simp add: py_lower_def)
  have k: "keyword_in_title ul title tlow kw = pattern_search (map ascii_lower kw) None title"
    using b ne low by (simp add: keyword_in_title_def)
  show ?thesis
  proof
    assume "keyword_in_title ul title tlow kw"
    with k obtain pre mid post where p: "title = pre @ mid @ post"
      "list_all2 sre_literal (map ascii_lower kw) mid"
      "boundary_before (if pre = [] then None else Some (last pre))" "boundary_after post"
      by (auto simp: pattern_search_iff)
    from t p(1) have tm: "list_all (\<lambda>c. \<not> ignorecase_extra c) mid"
      and tp: "list_all (\<lambda>c. \<not> ignorecase_extra c) pre"
      and tq: "list_all (\<lambda>c. \<not> ignorecase_extra c) post" by simp_all
    have m: "map ascii_lower mid = map ascii_lower kw" using sre_literals_plain[OF al tm] p(2) by simp
    have pr: "pre = [] \<or> \<not> is_ascii_alnum (last pre)"
    proof (cases "pre = []")
      case False
      then have "\<not> ignorecase_extra (last pre)" using tp by (simp add: list_all_iff)
      with False p(3) show ?thesis by (simp add: boundary_before_def sre_class_alnum_plain)
    qed simp
    have po: "post = [] \<or> \<not> is_ascii_alnum (hd post)"
    proof (cases post)
      case (Cons c cs)
      then have "\<not> ignorecase_extra c" using tq by simp
      with Cons p(4) show ?thesis by (simp add: boundary_after_def sre_class_alnum_plain)
    qed simp
    from p(1) m pr po show "boundary_occurrence kw title"
      unfolding boundary_occurrence_def by blast
  next
    assume "boundary_occurrence kw title"
    then obtain pre mid post where p: "title = pre @ mid @ post"
      "map ascii_lower mid = map ascii_lower kw"
      "pre = [] \<or> \<not> is_ascii_alnum (last pre)" "post = [] \<or> \<not> is_ascii_alnum (hd post)"
      unfolding boundary_occurrence_def by blast
    from t p(1) have tm: "list_all (\<lambda>c. \<not> ignorecase_extra c) mid"
      and tp: "list_all (\<lambda>c. \<not> ignorecase_extra c) pre"
      and tq: "list_all (\<lambda>c. \<not> ignorecase_extra c) post" by simp_all
    have m: "list_all2 sre_literal (map ascii_lower kw) mid"
      using sre_literals_plain[OF al tm] p(2) by simp
    have pr: "boundary_before (if pre = [] then None else Some (last pre))"
    proof (cases "pre = []")
      case False
      then have "\<not> ignorecase_extra (last pre)" using tp by (simp add: list_all_iff)
      with False p(3) show ?thesis by (simp add: boundary_before_def sre_class_alnum_plain)
    qed (simp add: boundary_before_def)
    have po: "boundary_after post"
    proof (cases post)
      case (Cons c cs)
      then have "\<not> ignorecase_extra c" using tq by simp
      with Cons p(4) show ?thesis by (simp add: boundary_after_def sre_class_alnum_plain)
    qed (simp add: boundary_after_def)
    from p(1) m pr po have "pattern_search (map ascii_lower kw) None title"
      unfolding pattern_search_iff by blast
    with k show "keyword_in_title ul title tlow kw" by simp
  qed
qed

lemma substring_rule:
  assumes "\<not> should_use_ascii_word_boundary kw" "kw \<noteq> []"
  shows "keyword_in_title ul title (py_lower ul title) kw \<longleftrightarrow> ci_substring ul kw title"
  using assms by (simp add: keyword_in_title_def ci_substring_def str_contains_iff)

subsection \<open>Admission of a title\<close>

lemma strip_Nil: "strip [] = []"
  by (simp add: strip_def)

lemma matches_group_iff:
  assumes "coerce_title t \<noteq> []"
  shows "matches_group ul t g \<longleftrightarrow>
     (or_empty (required g) = []
        \<or> (\<forall>k \<in> set (or_empty (required g)).
              keyword_in_title ul (coerce_title t) (py_lower ul (coerce_title t)) k))
     \<and> (or_empty (normal g) = []
        \<or> (\<exists>k \<in> set (or_empty (normal g)).
              keyword_in_title ul (coerce_title t) (py_lower ul (coerce_title t)) k))"
  using assms by (auto simp: matches_group_def Let_def list_all_iff list_ex_iff)

lemma matches_group_coerced: "matches_group ul (TStr (coerce_title t)) g = matches_group ul t g"
  by (simp add: matches_group_def)

text \<open>
  Claim C1. For a title whose stripped form is non-empty, \<^verbatim>\<open>matches_word_groups\<close> returns
  true exactly when no global filter keyword matches the title and either there are no
  word groups (filter words are then not consulted), or no filter word matches and some
  group matches; a group matches exactly when its required list is empty or all of its
  required keywords match, and its normal list is empty or one of its normal keywords
  matches.
\<close>

theorem matches_word_groups_admits:
  assumes "strip (coerce_title t) \<noteq> []"
  shows "(matches_word_groups ul t wgs fws gfs \<longleftrightarrow>
      \<not> (\<exists>k \<in> set (or_empty gfs).
            keyword_in_title ul (coerce_title t) (py_lower ul (coerce_title t)) k)
      \<and> (wgs = []
         \<or> (\<not> (\<exists>k \<in> set fws.
                  keyword_in_title ul (coerce_title t) (py_lower ul (coerce_title t)) k)
            \<and> (\<exists>g \<in> set wgs. matches_group ul t g))))
    \<and> (\<forall>g. matches_group ul t g \<longleftrightarrow>
         (or_empty (required g) = []
            \<or> (\<forall>k \<in> set (or_empty (required g)).
                  keyword_in_title ul (coerce_title t) (py_lower ul (coerce_title t)) k))
         \<and> (or_empty (normal g) = []
            \<or> (\<exists>k \<in> set (or_empty (normal g)).
                  keyword_in_title ul (coerce_title t) (py_lower ul (coerce_title t)) k)))"
proof -
  from assms have ne: "coerce_title t \<noteq> []" using strip_Nil by auto
  have a: "matches_word_groups ul t wgs fws gfs \<longleftrightarrow>
      \<not> (\<exists>k \<in> set (or_empty gfs).
            keyword_in_title ul (coerce_title t) (py_lower ul (coerce_title t)) k)
      \<and> (wgs = []
         \<or> (\<not> (\<exists>k \<in> set fws.
                  keyword_in_title ul (coerce_title t) (py_lower ul (coerce_title t)) k)
            \<and> (\<exists>g \<in> set wgs. matches_group ul t g)))"
    using assms
    by (auto simp: matches_word_groups_def Let_def list_ex_iff matches_group_coerced)
  show ?thesis using a matches_group_iff[OF ne] by blast
qed

text \<open>The keyword \<^verbatim>\<open>AI\<close> on the four titles of the specification.\<close>

lemma kw_AI_simps:
  "should_use_ascii_word_boundary [65, 73]" "py_lower ul [65, 73] = [97, 105]"
  by (simp_all add: should_use_ascii_word_boundary_def isascii_def isalnum_ascii_def
      is_ascii_def is_ascii_alnum_def is_ascii_digit_def is_ascii_upper_def is_ascii_lower_def
      py_lower_def ascii_lower_def)

lemma AI_examples:
  "keyword_in_title ul [65, 73, 26032, 33021, 28304, 27773, 36710] tlow [65, 73]"
  "keyword_in_title ul [20840, 29699, 65, 73, 21457, 23637] tlow [65, 73]"
  "\<not> keyword_in_title ul [65, 105, 114, 32, 113, 117, 97, 108, 105, 116, 121] tlow [65, 73]"
  "\<not> keyword_in_title ul [97, 114, 114, 65, 73, 103, 110, 101, 100] tlow [65, 73]"
  by (simp_all add: keyword_in_title_def kw_AI_simps match_here_def sre_literal_def
      sre_class_alnum_def is_ascii_alnum_def is_ascii_digit_def is_ascii_upper_def
      is_ascii_lower_def)

text \<open>The title \<^verbatim>\<open>AI\<close> followed by five CJK characters is admitted by a rulebook whose
  only group has the normal keyword \<^verbatim>\<open>AI\<close>.\<close>

theorem matches_word_groups_admits_witness:
  "strip (coerce_title (TStr [65, 73, 26032, 33021, 28304, 27773, 36710])) \<noteq> []
   \<and> matches_word_groups id (TStr [65, 73, 26032, 33021, 28304, 27773, 36710]) [ai_group] [] None"
proof -
  have h: "strip (coerce_title (TStr [65, 73, 26032, 33021, 28304, 27773, 36710])) \<noteq> []"
    by (simp add: strip_def is_space_def)
  have g: "matches_group id (TStr [65, 73, 26032, 33021, 28304, 27773, 36710]) ai_group"
    using matches_word_groups_admits[OF h, where ul = id, THEN conjunct2]
    by (simp add: ai_group_def or_empty_def AI_examples)
  show ?thesis
    using h g matches_word_groups_admits[OF h, where ul = id and wgs = "[ai_group]" and fws = "[]"
        and gfs = None, THEN conjunct1]
    by (simp add: or_empty_def)
qed

text \<open>
  Claim C2, as amended. A keyword is matched with the boundary pattern exactly when it is
  2 to 4 characters long and consists of ASCII letters and digits. On a title that
  contains none of U+0130, U+0131, U+017F, U+212A such a keyword matches exactly when it
  occurs, compared without regard to ASCII case, with no ASCII letter or digit
  immediately before or after it. Every other non-empty keyword matches exactly when its
  lower-cased form is a substring of the lower-cased title; the empty keyword matches no
  title. The keyword \<^verbatim>\<open>AI\<close> matches the two titles in which it stands next to CJK
  characters and matches neither \<^verbatim>\<open>Air quality\<close> nor \<^verbatim>\<open>arrAIgned\<close>.
\<close>

theorem keyword_match_rule:
  "(should_use_ascii_word_boundary kw \<longleftrightarrow>
      2 \<le> length kw \<and> length kw \<le> 4 \<and> list_all is_ascii_alnum kw)
   \<and> (should_use_ascii_word_boundary kw \<and> list_all (\<lambda>c. \<not> ignorecase_extra c) title \<longrightarrow>
        (keyword_in_title ul title (py_lower ul title) kw \<longleftrightarrow> boundary_occurrence kw title))
   \<and> (\<not> should_use_ascii_word_boundary kw \<and> kw \<noteq> [] \<longrightarrow>
        (keyword_in_title ul title (py_lower ul title) kw \<longleftrightarrow> ci_substring ul kw title))
   \<and> \<not> keyword_in_title ul title (py_lower ul title) []
   \<and> keyword_in_title ul [65, 73, 26032, 33021, 28304, 27773, 36710]
        (py_lower ul [65, 73, 26032, 33021, 28304, 27773, 36710]) [65, 73]
   \<and> keyword_in_title ul [20840, 29699, 65, 73, 21457, 23637]
        (py_lower ul [20840, 29699, 65, 73, 21457, 23637]) [65, 73]
   \<and> \<not> keyword_in_title ul [65, 105, 114, 32, 113, 117, 97, 108, 105, 116, 121]
        (py_lower ul [65, 105, 114, 32, 113, 117, 97, 108, 105, 116, 121]) [65, 73]
   \<and> \<not> keyword_in_title ul [97, 114, 114, 65, 73, 103, 110, 101, 100]
        (py_lower ul [97, 114, 114, 65, 73, 103, 110, 101, 100]) [65, 73]"
proof -
  have e: "\<not> keyword_in_title ul title (py_lower ul title) []"
    by (simp add: keyword_in_title_def)
  show ?thesis
    using should_use_ascii_word_boundary_iff[of kw]
      boundary_rule[of kw title ul "py_lower ul title"]
      substring_rule[of kw ul title] AI_examples[of ul] e
    by simp
qed

text \<open>Both rules at concrete inputs: the short keyword \<^verbatim>\<open>AI\<close> between CJK characters,
  and a two-character CJK keyword, which is matched by containment.\<close>

theorem keyword_match_rule_witness:
  "should_use_ascii_word_boundary [65, 73]
   \<and> list_all (\<lambda>c. \<not> ignorecase_extra c) [20840, 29699, 65, 73, 21457, 23637]
   \<and> boundary_occurrence [65, 73] [20840, 29699, 65, 73, 21457, 23637]
   \<and> \<not> should_use_ascii_word_boundary [33455, 29255] \<and> [33455, 29255] \<noteq> []
   \<and> (keyword_in_title id [65, 73, 33455, 29255] (py_lower id [65, 73, 33455, 29255]) [33455, 29255]
        \<longleftrightarrow> ci_substring id [33455, 29255] [65, 73, 33455, 29255])"
proof -
  have a: "should_use_ascii_word_boundary [65, 73]" by (rule kw_AI_simps)
  have b: "list_all (\<lambda>c. \<not> ignorecase_extra c) [20840, 29699, 65, 73, 21457, 23637]"
    by (simp add: ignorecase_extra_def)
  have c: "\<not> should_use_ascii_word_boundary [33455, 29255] \<and> [33455, 29255] \<noteq> []"
    by (simp add: should_use_ascii_word_boundary_def isascii_def is_ascii_def)
  note r = keyword_match_rule[where kw = "[65, 73]" and title = "[20840, 29699, 65, 73, 21457, 23637]"
      and ul = id]
  note s = keyword_match_rule[where kw = "[33455, 29255]" and title = "[65, 73, 33455, 29255]"
      and ul = id]
  have "boundary_occurrence [65, 73] [20840, 29699, 65, 73, 21457, 23637]"
    using r a b by blast
  moreover have "keyword_in_title id [65, 73, 33455, 29255] (py_lower id [65, 73, 33455, 29255]) [33455, 29255]
        \<longleftrightarrow> ci_substring id [33455, 29255] [65, 73, 33455, 29255]"
    using s c by blast
  ultimately show ?thesis using a b c by blast
qed

text \<open>The empty keyword is a substring of every title, yet \<^verbatim>\<open>_keyword_in_title\<close> returns
  false on it (\<^verbatim>\<open>if not keyword: return False\<close>).\<close>

theorem empty_keyword_counterexample:
  "\<not> (keyword_in_title id [97, 98, 99] (py_lower id [97, 98, 99]) []
        \<longleftrightarrow> ci_substring id [] [97, 98, 99])"
proof -
  have "py_lower id [97, 98, 99] = [] @ py_lower id [] @ [97, 98, 99]"
    by (simp add: py_lower_def isascii_def is_ascii_def ascii_lower_def is_ascii_upper_def)
  then have "ci_substring id [] [97, 98, 99]" unfolding ci_substring_def by blast
  moreover have "\<not> keyword_in_title id [97, 98, 99] (py_lower id [97, 98, 99]) []"
    by (simp add: keyword_in_title_def)
  ultimately show ?thesis by blast
qed

text \<open>
  Claim C7, as amended. \<^verbatim>\<open>matches_word_groups\<close> returns false on every title that is empty
  or consists of whitespace only, whatever the rulebook is: with or without groups, and
  before any filter is consulted. \<^verbatim>\<open>None\<close> is taken as the empty title and rejected; any
  other non-string title is replaced by \<^verbatim>\<open>str(title)\<close> and treated as that string.
  \<^verbatim>\<open>matches_group\<close> coerces its title in the same way and rejects the empty title. Both
  functions are total on these inputs: no branch of them raises.
\<close>

theorem blank_title_rejected:
  "(strip (coerce_title t) = [] \<longrightarrow> \<not> matches_word_groups ul t wgs fws gfs)
   \<and> \<not> matches_word_groups ul TNone wgs fws gfs
   \<and> matches_word_groups ul (TObj s) wgs fws gfs = matches_word_groups ul (TStr s) wgs fws gfs
   \<and> (coerce_title t = [] \<longrightarrow> \<not> matches_group ul t g)
   \<and> \<not> matches_group ul TNone g
   \<and> matches_group ul (TObj s) g = matches_group ul (TStr s) g"
  by (simp add: matches_word_groups_def matches_group_def strip_Nil)

text \<open>A title of a space, an ideographic space and a tab is rejected in pass-through
  mode.\<close>

theorem blank_title_rejected_witness:
  "strip (coerce_title (TStr [32, 12288, 9])) = []
   \<and> \<not> matches_word_groups id (TStr [32, 12288, 9]) [] [] None
   \<and> coerce_title (TStr []) = [] \<and> \<not> matches_group id (TStr []) ai_group"
proof -
  have h: "strip (coerce_title (TStr [32, 12288, 9])) = []"
    by (simp add: strip_def is_space_def)
  have k: "coerce_title (TStr []) = []" by simp
  show ?thesis
    using h k blank_title_rejected[where t = "TStr [32, 12288, 9]" and ul = id and wgs = "[]"
        and fws = "[]" and gfs = None]
      blank_title_rejected[where t = "TStr []" and ul = id and g = ai_group]
    by blast
qed

text \<open>\<^verbatim>\<open>None\<close> is not processed as its string representation: with no groups the string
  \<^verbatim>\<open>"None"\<close> is admitted, \<^verbatim>\<open>None\<close> is not.\<close>

theorem none_title_counterexample:
  "matches_word_groups id (TStr (py_str TNone)) [] [] None
   \<and> \<not> matches_word_groups id TNone [] [] None"
  by (simp add: matches_word_groups_def strip_def is_space_def or_empty_def)

section \<open>Properties of the rulebook parser\<close>

lemma parse_word_max_count:
  "group_max_count (parse_word v w) = (case at_count w of None \<Rightarrow> group_max_count v | Some n \<Rightarrow> n)"
  by (simp add: parse_word_def at_count_def split: option.splits)

lemma parse_word_invalid_at:
  "startswith w [64] \<Longrightarrow> at_count w = None \<Longrightarrow> parse_word v w = v"
  by (auto simp: parse_word_def at_count_def split: option.splits if_splits)

lemma map_filter_append:
  "List.map_filter f (xs @ ys) = List.map_filter f xs @ List.map_filter f ys"
  by (simp add: List.map_filter_def)

lemma foldl_parse_word_max_count:
  "group_max_count (foldl parse_word v words) =
     (case rev (List.map_filter at_count words) of [] \<Rightarrow> group_max_count v | n # _ \<Rightarrow> n)"
proof (induction words rule: rev_induct)
  case Nil
  then show ?case by (simp add: List.map_filter_simps)
next
  case (snoc w ws)
  show ?case
  proof (cases "at_count w")
    case None
    then show ?thesis using snoc
      by (simp add: parse_word_max_count map_filter_append List.map_filter_simps)
  next
    case (Some n)
    then show ?thesis
      by (simp add: parse_word_max_count map_filter_append List.map_filter_simps)
  qed
qed

lemma digit_value_ascii:
  "digit_value 48 = Some 0" "digit_value 51 = Some 3" "digit_value 97 = None"
  "digit_value 45 = None"
  by (simp_all add: digit_value_def nd_starts_def)

lemma py_int_examples:
  "py_int_str [48] = Some 0" "py_int_str [45, 51] = Some (- 3)" "py_int_str [97, 98, 99] = None"
  by (simp_all add: py_int_str_def is_int_space_def is_space_def int_unsigned_def
      digit_value_ascii int_max_str_digits_def)

lemma at_count_examples:
  "at_count [64, 48] = None" "at_count [64, 45, 51] = None" "at_count [64, 97, 98, 99] = None"
  "at_count [65, 73] = None" "at_count [64, 53] = Some 5"
  by (simp_all add: at_count_def py_int_examples py_int_str_def is_int_space_def is_space_def int_unsigned_def
      digit_value_def nd_starts_def int_max_str_digits_def)

text \<open>
  Claim C8. In a word-group block an \<^verbatim>\<open>@N\<close> line sets \<^verbatim>\<open>max_count\<close> only when \<^verbatim>\<open>N\<close> parses
  as a positive integer; the last such line of the block wins; an \<^verbatim>\<open>@\<close> line whose rest
  does not parse or is not positive leaves all the variables of the block as they were,
  and the parser has no failing branch there. The lines \<^verbatim>\<open>@0\<close>, \<^verbatim>\<open>@-3\<close> and \<^verbatim>\<open>@abc\<close> each
  leave \<^verbatim>\<open>max_count\<close> at its value, and a block holding only them keeps the default 0.
\<close>

theorem max_count_rule:
  "group_max_count (parse_group fws words) =
     (case rev (List.map_filter at_count words) of [] \<Rightarrow> 0 | n # _ \<Rightarrow> n)
   \<and> (startswith word [64] \<and> at_count word = None \<longrightarrow> parse_word v word = v)
   \<and> (at_count word = Some n \<longrightarrow> group_max_count (parse_word v word) = n)
   \<and> parse_word v [64, 48] = v
   \<and> parse_word v [64, 45, 51] = v
   \<and> parse_word v [64, 97, 98, 99] = v
   \<and> group_max_count (parse_group fws [[65, 73], [64, 48], [64, 45, 51], [64, 97, 98, 99]]) = 0"
proof -
  have a: "group_max_count (parse_group fws ws) =
     (case rev (List.map_filter at_count ws) of [] \<Rightarrow> 0 | n # _ \<Rightarrow> n)" for ws
    by (simp add: parse_group_def foldl_parse_word_max_count split: list.splits)
  have b: "parse_word v [64, 48] = v" "parse_word v [64, 45, 51] = v"
    "parse_word v [64, 97, 98, 99] = v"
    by (simp_all add: parse_word_invalid_at at_count_examples)
  have c: "group_max_count (parse_group fws [[65, 73], [64, 48], [64, 45, 51], [64, 97, 98, 99]]) = 0"
    by (simp add: a List.map_filter_simps at_count_examples)
  show ?thesis
    using a[of words] b c parse_word_invalid_at[of word v] parse_word_max_count[of v word]
    by simp
qed

text \<open>A block with the lines \<^verbatim>\<open>AI\<close>, \<^verbatim>\<open>@5\<close>, \<^verbatim>\<open>@0\<close> ends with the count 5.\<close>

theorem max_count_rule_witness:
  "startswith [64, 48] [64] \<and> at_count [64, 48] = None \<and> at_count [64, 53] = Some 5
   \<and> group_max_count (parse_group [] [[65, 73], [64, 53], [64, 48]]) = 5"
proof -
  have h: "startswith [64, 48] [64]" "at_count [64, 48] = None" "at_count [64, 53] = Some 5"
    by (simp_all add: at_count_examples)
  have "group_max_count (parse_group [] [[65, 73], [64, 53], [64, 48]]) = 5"
    using max_count_rule[where words = "[[65, 73], [64, 53], [64, 48]]" and fws = "[]"
        and word = "[64, 48]" and n = 5] h
    by (simp add: List.map_filter_simps at_count_examples)
  with h show ?thesis by simp
qed

section \<open>Properties of the report data\<close>

subsection \<open>Sequencing and dicts\<close>


lemma rbind_Inr [simp]: "rbind (Inr x) f = f x"
  by (simp add: rbind_def)

lemma rbind_Inl [simp]: "rbind (Inl e) f = Inl e"
  by (simp add: rbind_def)

lemma rbind_eq_Inr: "rbind m f = Inr y \<longleftrightarrow> (\<exists>x. m = Inr x \<and> f x = Inr y)"
  by (cases m) simp_all

lemma key_eq_iff [simp]: "key a = key b \<longleftrightarrow> a = b"
proof -
  have "inj (of_char :: char \<Rightarrow> nat)" by (rule injI) simp
  then show ?thesis unfolding key_def by (simp add: inj_map_eq_map)
qed

lemma map_of_dict_set:
  "map_of (dict_set d k v) k' = (if k' = k then Some v else map_of d k')"
  by (simp add: dict_set_def update_conv')

lemma dict_get_dict_set:
  "dict_get (dict_set d k v) k' dflt = (if k' = k then v else dict_get d k' dflt)"
  by (simp add: dict_get_def map_of_dict_set)

lemma mapM_eq_Inr: "mapM f xs = Inr ys \<longleftrightarrow> list_all2 (\<lambda>x y. f x = Inr y) xs ys"
proof (induction xs arbitrary: ys)
  case Nil
  then show ?case by auto
next
  case (Cons x xs)
  show ?case
  proof (cases ys)
    case Nil
    then show ?thesis by (simp add: rbind_eq_Inr)
  next
    case (Cons y ys')
    then show ?thesis using Cons.IH[of ys'] by (simp add: rbind_eq_Inr)
  qed
qed

lemma foldM_invariant:
  assumes "foldM f s xs = Inr s'" "P s"
    and "\<And>a x b. P a \<Longrightarrow> x \<in> set xs \<Longrightarrow> f a x = Inr b \<Longrightarrow> P b"
  shows "P s'"
  using assms
proof (induction xs arbitrary: s)
  case Nil
  then show ?case by simp
next
  case (Cons x xs)
  from Cons.prems(1) obtain a where a: "f s x = Inr a" "foldM f a xs = Inr s'"
    by (auto simp: rbind_eq_Inr)
  have pa: "P a" using Cons.prems(2) Cons.prems(3)[of s x a] a(1) by simp
  show ?case
  proof (rule Cons.IH[OF a(2) pa])
    fix a' x' b assume "P a'" "x' \<in> set xs" "f a' x' = Inr b"
    then show "P b" using Cons.prems(3)[of a' x' b] by simp
  qed
qed

subsection \<open>The final pass\<close>

lemma rbindE:
  assumes "rbind m f = Inr y"
  obtains x where "m = Inr x" "f x = Inr y"
  using assms by (auto simp: rbind_eq_Inr)

lemma list_all2_memberR: "list_all2 P xs ys \<Longrightarrow> y \<in> set ys \<Longrightarrow> \<exists>x\<in>set xs. P x y"
  by (induction rule: list_all2_induct) auto

lemma list_all2_memberL: "list_all2 P xs ys \<Longrightarrow> x \<in> set xs \<Longrightarrow> \<exists>y\<in>set ys. P x y"
  by (induction rule: list_all2_induct) auto

lemma float_not_le_zero: "\<not> float_le_zero f \<Longrightarrow> f \<noteq> FNaN \<Longrightarrow> positive_count (VFloat f)"
  by (cases f) (simp_all add: positive_count_def)

lemma le_zero_False:
  assumes "le_zero c = Inr False" "c \<noteq> VFloat FNaN"
  shows "positive_count c"
proof (cases c)
  case (VFloat f)
  then show ?thesis using assms float_not_le_zero[of f] by simp
qed (insert assms, simp_all add: positive_count_def)

lemma process_stat_cases:
  assumes "process_stat stat = Inr ys"
  shows "(\<exists>c. py_item stat (key ''count'') = Inr c \<and> le_zero c = Inr True \<and> ys = [])
       \<or> (\<exists>c ts titles pts w pct.
             py_item stat (key ''count'') = Inr c \<and> le_zero c = Inr False
           \<and> py_item stat (key ''titles'') = Inr ts \<and> py_iter ts = Inr titles
           \<and> mapM project_title titles = Inr pts
           \<and> py_item stat (key ''word'') = Inr w
           \<and> py_get stat (key ''percentage'') (VInt 0) = Inr pct
           \<and> ys = [VDict [(key ''word'', w), (key ''count'', c), (key ''percentage'', pct),
                          (key ''titles'', VList pts)]])"
proof -
  from assms obtain c skip where c: "py_item stat (key ''count'') = Inr c" "le_zero c = Inr skip"
    and r: "(if skip then Inr []
       else
         rbind (py_item stat (key ''titles'')) (\<lambda>ts.
         rbind (py_iter ts) (\<lambda>titles.
         rbind (mapM project_title titles) (\<lambda>processed_titles.
         rbind (py_item stat (key ''word'')) (\<lambda>word.
         rbind (py_item stat (key ''count'')) (\<lambda>c2.
         rbind (py_get stat (key ''percentage'') (VInt 0)) (\<lambda>pct.
           Inr [VDict [(key ''word'', word),
                       (key ''count'', c2),
                       (key ''percentage'', pct),
                       (key ''titles'', VList processed_titles)]]))))))) = Inr ys"
    unfolding process_stat_def rbind_eq_Inr by blast
  show ?thesis
  proof (cases skip)
    case True
    with c r show ?thesis by simp
  next
    case False
    with r have r0: "rbind (py_item stat (key ''titles'')) (\<lambda>ts.
         rbind (py_iter ts) (\<lambda>titles.
         rbind (mapM project_title titles) (\<lambda>processed_titles.
         rbind (py_item stat (key ''word'')) (\<lambda>word.
         rbind (py_item stat (key ''count'')) (\<lambda>c2.
         rbind (py_get stat (key ''percentage'') (VInt 0)) (\<lambda>pct.
           Inr [VDict [(key ''word'', word),
                       (key ''count'', c2),
                       (key ''percentage'', pct),
                       (key ''titles'', VList processed_titles)]])))))) = Inr ys"
      by simp
    from r0 obtain ts where ts: "py_item stat (key ''titles'') = Inr ts"
      and r1: "rbind (py_iter ts) (\<lambda>titles.
         rbind (mapM project_title titles) (\<lambda>processed_titles.
         rbind (py_item stat (key ''word'')) (\<lambda>word.
         rbind (py_item stat (key ''count'')) (\<lambda>c2.
         rbind (py_get stat (key ''percentage'') (VInt 0)) (\<lambda>pct.
           Inr [VDict [(key ''word'', word),
                       (key ''count'', c2),
                       (key ''percentage'', pct),
                       (key ''titles'', VList processed_titles)]]))))) = Inr ys"
      by (rule rbindE)
    from r1 obtain titles where ti: "py_iter ts = Inr titles"
      and r2: "rbind (mapM project_title titles) (\<lambda>processed_titles.
         rbind (py_item stat (key ''word'')) (\<lambda>word.
         rbind (py_item stat (key ''count'')) (\<lambda>c2.
         rbind (py_get stat (key ''percentage'') (VInt 0)) (\<lambda>pct.
           Inr [VDict [(key ''word'', word),
                       (key ''count'', c2),
                       (key ''percentage'', pct),
                       (key ''titles'', VList processed_titles)]])))) = Inr ys"
      by (rule rbindE)
    from r2 obtain pts where pts: "mapM project_title titles = Inr pts"
      and r3: "rbind (py_item stat (key ''word'')) (\<lambda>word.
         rbind (py_item stat (key ''count'')) (\<lambda>c2.
         rbind (py_get stat (key ''percentage'') (VInt 0)) (\<lambda>pct.
           Inr [VDict [(key ''word'', word),
                       (key ''count'', c2),
                       (key ''percentage'', pct),
                       (key ''titles'', VList pts)]]))) = Inr ys"
      by (rule rbindE)
    from r3 obtain w where w: "py_item stat (key ''word'') = Inr w"
      and r4: "rbind (py_item stat (key ''count'')) (\<lambda>c2.
         rbind (py_get stat (key ''percentage'') (VInt 0)) (\<lambda>pct.
           Inr [VDict [(key ''word'', w),
                       (key ''count'', c2),
                       (key ''percentage'', pct),
                       (key ''titles'', VList pts)]])) = Inr ys"
      by (rule rbindE)
    from r4 c(1) obtain pct where pct: "py_get stat (key ''percentage'') (VInt 0) = Inr pct"
      and ys: "ys = [VDict [(key ''word'', w), (key ''count'', c), (key ''percentage'', pct),
                       (key ''titles'', VList pts)]]"
      by (auto simp: rbind_eq_Inr)
    have lz: "le_zero c = Inr False" using c False by simp
    show ?thesis
      by (rule disjI2, intro exI conjI) (rule c(1) lz ts ti pts w pct ys)+
  qed
qed

lemma process_stats_member:
  assumes "process_stats stats1 = Inr out" "e \<in> set out"
  shows "\<exists>xs stat. py_iter stats1 = Inr xs \<and> stat \<in> set xs \<and> process_stat stat = Inr [e]"
proof -
  from assms(1) obtain xs ys where x: "py_iter stats1 = Inr xs" "mapM process_stat xs = Inr ys"
    "out = concat ys"
    unfolding process_stats_def rbind_eq_Inr by auto
  from assms(2) x(3) obtain y where y: "y \<in> set ys" "e \<in> set y" by auto
  from x(2) have "list_all2 (\<lambda>x y. process_stat x = Inr y) xs ys" by (simp add: mapM_eq_Inr)
  with y(1) obtain stat where s: "stat \<in> set xs" "process_stat stat = Inr y"
    using list_all2_memberR by force
  from process_stat_cases[OF s(2)] y(2) have "y = [e]" by auto
  with x(1) s show ?thesis by blast
qed

lemma prepare_unfold:
  assumes "prepare_report_data fl stats0 failed_ids nt idn mode rt mf lf rss0 rssn0 = Inr p"
  shows "\<exists>r1 rss sp stats1.
           or_else rss0 (VList []) = Inr r1 \<and> py_iter r1 = Inr rss \<and> split_personal rss = Inr sp
         \<and> (if snd sp \<noteq> [] then rbind (merge_stats fl stats0 (snd sp)) (\<lambda>ms. Inr (VList ms))
             else Inr stats0) = Inr stats1
         \<and> personal_feeds (fst sp) = Inr (p_rss_stats p)
         \<and> process_stats stats1 = Inr (p_stats p)"
  using assms unfolding prepare_report_data_def rbind_eq_Inr
  by (elim exE conjE) (force simp: rbind_eq_Inr)

lemma prepare_report_data_eq:
  assumes "or_else rss_arg (VList []) = Inr rl" "py_iter rl = Inr rss"
    and "split_personal rss = Inr sp"
    and "or_else rss_new_arg (VList []) = Inr rnl" "py_iter rnl = Inr rss_new"
    and "split_personal rss_new = Inr sp_new"
    and "(if snd sp \<noteq> [] then rbind (merge_stats fl stats_arg (snd sp)) (\<lambda>ms. Inr (VList ms))
          else Inr stats_arg) = Inr merged"
    and "personal_feeds (fst sp) = Inr feeds"
    and "process_new_titles new_titles_arg id_to_name mode rank_threshold
           matches_word_groups_func load_frequency_words_func = Inr news"
    and "process_stats merged = Inr out"
    and "or_else failed_ids (VList []) = Inr failed"
  shows "prepare_report_data fl stats_arg failed_ids new_titles_arg id_to_name mode rank_threshold
           matches_word_groups_func load_frequency_words_func rss_arg rss_new_arg
         = Inr \<lparr>p_stats = out, p_new_titles = news, p_rss_stats = feeds, p_rss_new_stats = [],
                p_failed_ids = failed, p_total_new_count = total_titles news\<rparr>"
  unfolding prepare_report_data_def using assms by simp

lemma no_new_titles:
  "process_new_titles VNone VNone m rt mf lf = Inr []"
  by (simp add: process_new_titles_def)

text \<open>
  Claim C6, as amended. Whenever \<^verbatim>\<open>prepare_report_data\<close> returns, every entry of the
  \<^verbatim>\<open>stats\<close> of the payload carries a count on which \<^verbatim>\<open>count <= 0\<close> is false, and which is
  therefore strictly greater than 0 unless it is the float not-a-number; and in the final
  loop an entry whose count is at most 0 contributes nothing to that list, whatever its
  titles are.
\<close>

theorem final_stats_positive:
  "(prepare_report_data fl stats0 failed_ids new_titles0 id_to_name mode rank_threshold
       matches_word_groups_func load_frequency_words_func rss_stats0 rss_new_stats0 = Inr p
      \<longrightarrow> (\<forall>e \<in> set (p_stats p). \<exists>c. entry_field e ''count'' = Some c \<and> le_zero c = Inr False
              \<and> (c \<noteq> VFloat FNaN \<longrightarrow> positive_count c)))
   \<and> (py_item stat (key ''count'') = Inr c \<and> le_zero c = Inr True \<longrightarrow> process_stat stat = Inr [])"
proof -
  have a: "\<exists>c. entry_field e ''count'' = Some c \<and> le_zero c = Inr False
              \<and> (c \<noteq> VFloat FNaN \<longrightarrow> positive_count c)"
    if h: "prepare_report_data fl stats0 failed_ids new_titles0 id_to_name mode rank_threshold
       matches_word_groups_func load_frequency_words_func rss_stats0 rss_new_stats0 = Inr p"
      and e: "e \<in> set (p_stats p)" for e
  proof -
    from prepare_unfold[OF h] obtain stats1 where "process_stats stats1 = Inr (p_stats p)"
      by blast
    from process_stats_member[OF this e] obtain stat where s: "process_stat stat = Inr [e]"
      by blast
    from process_stat_cases[OF s] obtain c w pct pts where
      "le_zero c = Inr False"
      "e = VDict [(key ''word'', w), (key ''count'', c), (key ''percentage'', pct),
                          (key ''titles'', VList pts)]"
      by auto
    then show ?thesis by (simp add: entry_field_def le_zero_False)
  qed
  have b: "process_stat stat = Inr []"
    if "py_item stat (key ''count'') = Inr c" "le_zero c = Inr True"
    using that by (simp add: process_stat_def)
  show ?thesis using a b by blast
qed

text \<open>A list of two entries, the first with count 0 and a title, the second with count
  2: only the second is emitted.\<close>

theorem final_stats_positive_witness:
  "prepare_report_data example_floats (VList [zero_count_stat, positive_count_stat]) VNone VNone VNone
       (key ''daily'') (VInt 3) (None :: (pstr \<Rightarrow> unit \<Rightarrow> error + pyval) option) None VNone VNone
     = Inr \<lparr>p_stats = [positive_count_entry], p_new_titles = [], p_rss_stats = [],
            p_rss_new_stats = [], p_failed_ids = VList [], p_total_new_count = 0\<rparr>
   \<and> entry_field positive_count_entry ''count'' = Some (VInt 2) \<and> positive_count (VInt 2)
   \<and> py_item zero_count_stat (key ''count'') = Inr (VInt 0) \<and> le_zero (VInt 0) = Inr True
   \<and> process_stat zero_count_stat = Inr []"
proof -
  have r: "prepare_report_data example_floats (VList [zero_count_stat, positive_count_stat]) VNone VNone VNone
       (key ''daily'') (VInt 3) (None :: (pstr \<Rightarrow> unit \<Rightarrow> error + pyval) option) None VNone VNone
     = Inr \<lparr>p_stats = [positive_count_entry], p_new_titles = [], p_rss_stats = [],
            p_rss_new_stats = [], p_failed_ids = VList [], p_total_new_count = 0\<rparr>"
    by code_simp
  have c: "py_item zero_count_stat (key ''count'') = Inr (VInt 0)" by code_simp
  have f: "entry_field positive_count_entry ''count'' = Some (VInt 2)"
    by (simp add: entry_field_def positive_count_entry_def)
  show ?thesis
    using r c f
      final_stats_positive[of example_floats "VList [zero_count_stat, positive_count_stat]"
        VNone VNone VNone
        "key ''daily''" "VInt 3" "None :: (pstr \<Rightarrow> unit \<Rightarrow> error + pyval) option" None VNone VNone
        "\<lparr>p_stats = [positive_count_entry], p_new_titles = [], p_rss_stats = [],
            p_rss_new_stats = [], p_failed_ids = VList [], p_total_new_count = 0\<rparr>"
        zero_count_stat "VInt 0"]
    by simp
qed

text \<open>An entry whose count is the float not-a-number: \<^verbatim>\<open>count <= 0\<close> is false on it, so it
  is emitted, with a count that is not greater than 0.\<close>

theorem nan_count_counterexample:
  "prepare_report_data example_floats (VList [nan_count_stat]) VNone VNone VNone
       (key ''daily'') (VInt 3) (None :: (pstr \<Rightarrow> unit \<Rightarrow> error + pyval) option) None VNone VNone
     = Inr \<lparr>p_stats = [nan_count_entry], p_new_titles = [], p_rss_stats = [],
            p_rss_new_stats = [], p_failed_ids = VList [], p_total_new_count = 0\<rparr>
   \<and> entry_field nan_count_entry ''count'' = Some (VFloat FNaN)
   \<and> \<not> positive_count (VFloat FNaN)"
  by code_simp

subsection \<open>Words of the merged entries\<close>

lemma set_update_subset: "set (AList.update k v al) \<subseteq> insert (k, v) (set al)"
  by (induction al) auto

lemma merge_entry_word:
  assumes "merge_entry fl merged d = Inr m'"
  shows "map_of m' (key ''word'') = map_of merged (key ''word'')"
  using assms unfolding merge_entry_def Let_def rbind_eq_Inr
  by (auto simp: map_of_dict_set split: option.splits)

lemma words_truthy_update:
  assumes "words_truthy m" "map_of d (key ''word'') = Some w" "truthy w = Inr True"
  shows "words_truthy (AList.update k d m)"
  unfolding words_truthy_def
proof
  fix d' assume "d' \<in> snd ` set (AList.update k d m)"
  then have "d' = d \<or> d' \<in> snd ` set m" using set_update_subset[of k d m] by auto
  then show "\<exists>w. map_of d' (key ''word'') = Some w \<and> truthy w = Inr True"
    using assms unfolding words_truthy_def by auto
qed

lemma py_get_word_truthy:
  assumes "py_get stat (key ''word'') VNone = Inr w" "truthy w = Inr True" "py_items stat = Inr d"
  shows "map_of d (key ''word'') = Some w"
  using assms by (cases stat) (auto simp: dict_get_def split: option.splits)

lemma add_primary_words:
  assumes "add_primary m stat = Inr m'" "words_truthy m"
  shows "words_truthy m'"
proof -
  from assms(1) obtain w t where w: "py_get stat (key ''word'') VNone = Inr w" "truthy w = Inr t"
    and r: "(if \<not> t then Inr m
       else rbind (as_key w) (\<lambda>k.
            rbind (py_items stat) (\<lambda>d. Inr (AList.update k d m)))) = Inr m'"
    unfolding add_primary_def rbind_eq_Inr by blast
  show ?thesis
  proof (cases t)
    case False
    with r assms(2) show ?thesis by simp
  next
    case True
    with r obtain k d where d: "py_items stat = Inr d" and m': "m' = AList.update k d m"
      by (auto simp: rbind_eq_Inr)
    from w True have tw: "truthy w = Inr True" by simp
    show ?thesis unfolding m'
      by (rule words_truthy_update[OF assms(2) py_get_word_truthy[OF w(1) tw d] tw])
  qed
qed

lemma words_truthy_map_of:
  "words_truthy m \<Longrightarrow> map_of m k = Some d \<Longrightarrow> \<exists>w. map_of d (key ''word'') = Some w \<and> truthy w = Inr True"
  unfolding words_truthy_def by (force dest: map_of_SomeD)

lemma add_rss_words:
  assumes "add_rss fl m stat = Inr m'" "words_truthy m"
  shows "words_truthy m'"
proof -
  from assms(1) obtain w t where w: "py_get stat (key ''word'') VNone = Inr w" "truthy w = Inr t"
    and r: "(if \<not> t then Inr m
       else rbind (as_key w) (\<lambda>k.
            rbind (py_items stat) (\<lambda>d.
              case map_of m k of
                Some merged \<Rightarrow> rbind (merge_entry fl merged d) (\<lambda>merged'. Inr (AList.update k merged' m))
              | None \<Rightarrow> Inr (AList.update k d m)))) = Inr m'"
    unfolding add_rss_def rbind_eq_Inr by blast
  show ?thesis
  proof (cases t)
    case False
    with r assms(2) show ?thesis by simp
  next
    case True
    with r obtain k d where d: "py_items stat = Inr d"
      and r2: "(case map_of m k of
                Some merged \<Rightarrow> rbind (merge_entry fl merged d) (\<lambda>merged'. Inr (AList.update k merged' m))
              | None \<Rightarrow> Inr (AList.update k d m)) = Inr m'"
      by (auto simp: rbind_eq_Inr)
    show ?thesis
    proof (cases "map_of m k")
      case None
      with r2 have m': "m' = AList.update k d m" by simp
      from w True have tw: "truthy w = Inr True" by simp
      show ?thesis unfolding m'
        by (rule words_truthy_update[OF assms(2) py_get_word_truthy[OF w(1) tw d] tw])
    next
      case (Some merged)
      with r2 obtain merged' where me: "merge_entry fl merged d = Inr merged'"
        and m': "m' = AList.update k merged' m"
        by (auto simp: rbind_eq_Inr)
      from words_truthy_map_of[OF assms(2) Some] obtain w' where
        "map_of merged (key ''word'') = Some w'" "truthy w' = Inr True" by blast
      with merge_entry_word[OF me] have "map_of merged' (key ''word'') = Some w'" by simp
      with \<open>truthy w' = Inr True\<close> m' assms(2) show ?thesis
        using words_truthy_update by blast
    qed
  qed
qed

lemma merged_by_word_words:
  assumes "merged_by_word fl stats0 rss = Inr m"
  shows "words_truthy m"
proof -
  from assms obtain primary m1 where a: "foldM add_primary [] primary = Inr m1"
    and b: "foldM (add_rss fl) m1 rss = Inr m"
    unfolding merged_by_word_def rbind_eq_Inr by blast
  have "words_truthy []" by (simp add: words_truthy_def)
  with a have "words_truthy m1"
    by (rule foldM_invariant) (rule add_primary_words)
  with b show ?thesis
    by (rule foldM_invariant) (rule add_rss_words)
qed

lemma mapM_length: "mapM f xs = Inr ys \<Longrightarrow> length ys = length xs"
  by (simp add: mapM_eq_Inr list_all2_lengthD)

lemma sorted_by_set:
  assumes "sorted_by f xs = Inr ys"
  shows "set ys = set xs"
proof -
  from assms obtain ks where k: "mapM f xs = Inr ks" and y: "ys = map snd (sort_key fst (zip ks xs))"
    unfolding sorted_by_def rbind_eq_Inr by auto
  have "set ys = snd ` set (zip ks xs)" using y by simp
  also have "\<dots> = set (map snd (zip ks xs))" by simp
  also have "\<dots> = set xs" using mapM_length[OF k] by simp
  finally show ?thesis .
qed

lemma merge_stats_words:
  assumes "merge_stats fl stats0 rss = Inr ms" "s \<in> set ms"
  shows "\<exists>d w. s = VDict d \<and> map_of d (key ''word'') = Some w \<and> truthy w = Inr True"
proof -
  from assms(1) obtain m srt where m: "merged_by_word fl stats0 rss = Inr m"
    and s: "sorted_by stat_sort_key (map snd m) = Inr srt" and ms: "ms = map VDict srt"
    unfolding merge_stats_def rbind_eq_Inr by auto
  from assms(2) ms obtain d where d: "s = VDict d" "d \<in> set srt" by auto
  with sorted_by_set[OF s] have "d \<in> snd ` set m" by simp
  with merged_by_word_words[OF m] d(1) show ?thesis
    unfolding words_truthy_def by blast
qed

lemma split_personal_snd:
  assumes "split_personal xs = Inr sp"
  shows "snd sp \<noteq> [] \<longleftrightarrow> (\<exists>x \<in> set xs. is_personal x = Inr False)"
proof -
  from assms obtain bs where b: "mapM is_personal xs = Inr bs"
    and sp: "snd sp = map snd (filter (\<lambda>p. \<not> fst p) (zip bs xs))"
    unfolding split_personal_def rbind_eq_Inr by auto
  from b have l: "list_all2 (\<lambda>x y. is_personal x = Inr y) xs bs" by (simp add: mapM_eq_Inr)
  have "snd sp \<noteq> [] \<longleftrightarrow> (\<exists>p \<in> set (zip bs xs). \<not> fst p)"
    using sp by (simp add: filter_empty_conv)
  also have "\<dots> \<longleftrightarrow> (\<exists>x \<in> set xs. is_personal x = Inr False)"
    using l by (induction rule: list_all2_induct) auto
  finally show ?thesis .
qed

text \<open>
  Claim C10. Let \<^verbatim>\<open>prepare_report_data\<close> return, and let \<open>rss_entries\<close> be the entries of
  \<^verbatim>\<open>rss_stats or []\<close>. If one of them has a word other than the personal-feed key, so that
  the merge runs, then every entry of the returned \<^verbatim>\<open>stats\<close> has a truthy word: a hot-list
  entry whose word is missing, empty or otherwise falsy is absent, whatever its count is.
  If none of them has, the returned \<^verbatim>\<open>stats\<close> are the result of the final pass on the
  hot-list entries as given, in which the word is not inspected.
\<close>

theorem falsy_word_dropped:
  "prepare_report_data fl stats0 failed_ids new_titles0 id_to_name mode rank_threshold
       matches_word_groups_func load_frequency_words_func rss_stats0 rss_new_stats0 = Inr p
   \<and> or_else rss_stats0 (VList []) = Inr r \<and> py_iter r = Inr rss_entries \<longrightarrow>
     ((\<exists>x \<in> set rss_entries. is_personal x = Inr False) \<longrightarrow>
        (\<forall>e \<in> set (p_stats p). \<exists>w. entry_field e ''word'' = Some w \<and> truthy w = Inr True))
   \<and> (\<not> (\<exists>x \<in> set rss_entries. is_personal x = Inr False) \<longrightarrow>
        process_stats stats0 = Inr (p_stats p))"
proof (intro impI, elim conjE)
  assume h: "prepare_report_data fl stats0 failed_ids new_titles0 id_to_name mode rank_threshold
       matches_word_groups_func load_frequency_words_func rss_stats0 rss_new_stats0 = Inr p"
    and r: "or_else rss_stats0 (VList []) = Inr r" and i: "py_iter r = Inr rss_entries"
  from prepare_unfold[OF h] r i obtain sp stats1 where
    sp: "split_personal rss_entries = Inr sp"
    and m: "(if snd sp \<noteq> [] then rbind (merge_stats fl stats0 (snd sp)) (\<lambda>ms. Inr (VList ms))
             else Inr stats0) = Inr stats1"
    and ps: "process_stats stats1 = Inr (p_stats p)"
    by auto
  note k = split_personal_snd[OF sp]
  have a: "\<exists>w. entry_field e ''word'' = Some w \<and> truthy w = Inr True"
    if x: "\<exists>x \<in> set rss_entries. is_personal x = Inr False" and e: "e \<in> set (p_stats p)" for e
  proof -
    from x k m obtain ms where ms: "merge_stats fl stats0 (snd sp) = Inr ms" "stats1 = VList ms"
      by (auto simp: rbind_eq_Inr)
    from process_stats_member[OF ps e] ms(2) obtain stat where
      s: "stat \<in> set ms" "process_stat stat = Inr [e]"
      by auto
    from merge_stats_words[OF ms(1) s(1)] obtain d w where
      d: "stat = VDict d" "map_of d (key ''word'') = Some w" "truthy w = Inr True"
      by blast
    from process_stat_cases[OF s(2)] obtain c w' pct pts where
      w': "py_item stat (key ''word'') = Inr w'"
      and e': "e = VDict [(key ''word'', w'), (key ''count'', c), (key ''percentage'', pct),
                          (key ''titles'', VList pts)]"
      by auto
    from w' d have "w' = w" by simp
    with e' d(3) show ?thesis by (simp add: entry_field_def)
  qed
  have b: "process_stats stats0 = Inr (p_stats p)"
    if "\<not> (\<exists>x \<in> set rss_entries. is_personal x = Inr False)"
    using that k m ps by simp
  show "((\<exists>x \<in> set rss_entries. is_personal x = Inr False) \<longrightarrow>
        (\<forall>e \<in> set (p_stats p). \<exists>w. entry_field e ''word'' = Some w \<and> truthy w = Inr True))
   \<and> (\<not> (\<exists>x \<in> set rss_entries. is_personal x = Inr False) \<longrightarrow>
        process_stats stats0 = Inr (p_stats p))"
    using a b by blast
qed

text \<open>A hot-list entry with the empty word and count 1: with a keyword RSS entry the
  returned stats hold only the RSS entry, without one they hold the hot-list entry.\<close>

theorem falsy_word_dropped_witness:
  "prepare_report_data example_floats (VList [falsy_word_stat]) VNone VNone VNone (key ''daily'') (VInt 3)
       (None :: (pstr \<Rightarrow> unit \<Rightarrow> error + pyval) option) None (VList [keyword_rss_stat]) VNone
     = Inr merged_payload
   \<and> is_personal keyword_rss_stat = Inr False
   \<and> (\<exists>w. entry_field keyword_rss_entry ''word'' = Some w \<and> truthy w = Inr True)
   \<and> prepare_report_data example_floats (VList [falsy_word_stat]) VNone VNone VNone (key ''daily'') (VInt 3)
       (None :: (pstr \<Rightarrow> unit \<Rightarrow> error + pyval) option) None VNone VNone
     = Inr unmerged_payload
   \<and> process_stats (VList [falsy_word_stat]) = Inr [falsy_word_entry]"
proof -
  have s1: "split_personal [keyword_rss_stat] = Inr ([], [keyword_rss_stat])"
    by (simp add: split_personal_def is_personal_def keyword_rss_stat_def dict_get_def
        PERSONAL_RSS_GROUP_KEY_def)
  have s2: "split_personal [] = Inr ([], [])" by (simp add: split_personal_def)
  have s3: "merge_stats example_floats (VList [falsy_word_stat]) [keyword_rss_stat] = Inr [keyword_rss_stat]"
    by code_simp
  have s4: "process_stats (VList [keyword_rss_stat]) = Inr [keyword_rss_entry]" by code_simp
  have s5: "personal_feeds [] = Inr []" by (simp add: personal_feeds_def)
  have s6: "process_stats (VList [falsy_word_stat]) = Inr [falsy_word_entry]" by code_simp
  have a: "prepare_report_data example_floats (VList [falsy_word_stat]) VNone VNone VNone (key ''daily'') (VInt 3)
       (None :: (pstr \<Rightarrow> unit \<Rightarrow> error + pyval) option) None (VList [keyword_rss_stat]) VNone
     = Inr merged_payload"
    using prepare_report_data_eq[where fl = example_floats and rss_arg = "VList [keyword_rss_stat]"
        and rl = "VList [keyword_rss_stat]" and rss = "[keyword_rss_stat]"
        and sp = "([], [keyword_rss_stat])" and rss_new_arg = VNone and rnl = "VList []"
        and rss_new = "[]" and sp_new = "([], [])" and stats_arg = "VList [falsy_word_stat]"
        and merged = "VList [keyword_rss_stat]" and feeds = "[]" and news = "[]"
        and failed_ids = VNone and failed = "VList []", OF _ _ s1 _ _ s2 _ _ no_new_titles s4]
    by (simp add: or_else_def s3 s5 total_titles_def merged_payload_def)
  have b: "prepare_report_data example_floats (VList [falsy_word_stat]) VNone VNone VNone (key ''daily'') (VInt 3)
       (None :: (pstr \<Rightarrow> unit \<Rightarrow> error + pyval) option) None VNone VNone
     = Inr unmerged_payload"
    using prepare_report_data_eq[where fl = example_floats and rss_arg = VNone
        and rl = "VList []" and rss = "[]"
        and sp = "([], [])" and rss_new_arg = VNone and rnl = "VList []"
        and rss_new = "[]" and sp_new = "([], [])" and stats_arg = "VList [falsy_word_stat]"
        and merged = "VList [falsy_word_stat]" and feeds = "[]" and news = "[]"
        and failed_ids = VNone and failed = "VList []", OF _ _ s2 _ _ s2 _ _ no_new_titles s6]
    by (simp add: or_else_def s5 total_titles_def unmerged_payload_def)
  have c: "is_personal keyword_rss_stat = Inr False"
    by (simp add: is_personal_def keyword_rss_stat_def dict_get_def PERSONAL_RSS_GROUP_KEY_def)
  have d: "or_else (VList [keyword_rss_stat]) (VList []) = Inr (VList [keyword_rss_stat])"
    "py_iter (VList [keyword_rss_stat]) = Inr [keyword_rss_stat]"
    "or_else VNone (VList []) = Inr (VList [])" "py_iter (VList []) = Inr []"
    by (simp_all add: or_else_def)
  have e: "truthy (VStr [98]) = Inr True" by simp
  show ?thesis
    using a b c s6
      falsy_word_dropped[THEN mp, OF conjI[OF a conjI[OF d(1) d(2)]]]
      falsy_word_dropped[THEN mp, OF conjI[OF b conjI[OF d(3) d(4)]]]
    by (simp add: merged_payload_def unmerged_payload_def)
qed

subsection \<open>The projection of a title\<close>

lemma project_title_not_dict:
  "\<forall>d. td \<noteq> VDict d \<Longrightarrow> project_title td = Inl TypeError"
  by (cases td) (simp_all add: project_title_def)

lemma project_title_mobile_url:
  assumes "project_title (VDict d) = Inr pt"
  shows "entry_field pt ''mobile_url'' = Some (spec_mobile_url d)"
proof -
  from assms obtain title source_name time_display cnt ranks rt t mu where
    t: "truthy (dict_get d (key ''mobile_url'') VNone) = Inr t"
    and mu: "mu = (if t then dict_get d (key ''mobile_url'') VNone
                   else dict_get d (key ''mobileUrl'') (VStr []))"
    and pt: "pt = VDict [(key ''title'', title),
                   (key ''source_name'', source_name),
                   (key ''time_display'', time_display),
                   (key ''count'', cnt),
                   (key ''ranks'', ranks),
                   (key ''rank_threshold'', rt),
                   (key ''url'', dict_get d (key ''url'') (VStr [])),
                   (key ''mobile_url'', mu),
                   (key ''is_new'', dict_get d (key ''is_new'') (VBool False))]"
    unfolding project_title_def rbind_eq_Inr by (auto split: if_splits)
  have "mu = spec_mobile_url d"
    using t mu by (auto simp: spec_mobile_url_def dict_get_def split: option.splits)
  with pt show ?thesis by (simp add: entry_field_def)
qed

text \<open>
  Claim C9, as amended. In the final pass every title of an emitted entry is the
  projection of the corresponding title record of the input entry, in order; and the
  projected title takes its \<^verbatim>\<open>mobile_url\<close> from the field \<^verbatim>\<open>mobile_url\<close> when the record has
  that field with a truthy value, and otherwise from the field \<^verbatim>\<open>mobileUrl\<close>, or the empty
  string when the record has no such field.
\<close>

theorem mobile_url_projection:
  "(project_title td = Inr pt \<longrightarrow>
      (\<exists>d. td = VDict d \<and> entry_field pt ''mobile_url'' = Some (spec_mobile_url d)))
   \<and> (process_stat stat = Inr [e] \<longrightarrow>
        (\<exists>ts titles pts. py_item stat (key ''titles'') = Inr ts \<and> py_iter ts = Inr titles
           \<and> list_all2 (\<lambda>t p. project_title t = Inr p) titles pts
           \<and> entry_field e ''titles'' = Some (VList pts)))"
proof -
  have a: "\<exists>d. td = VDict d \<and> entry_field pt ''mobile_url'' = Some (spec_mobile_url d)"
    if h: "project_title td = Inr pt"
  proof (cases "\<exists>d. td = VDict d")
    case True
    then show ?thesis using h project_title_mobile_url by blast
  next
    case False
    then show ?thesis using h project_title_not_dict[of td] by simp
  qed
  have b: "\<exists>ts titles pts. py_item stat (key ''titles'') = Inr ts \<and> py_iter ts = Inr titles
           \<and> list_all2 (\<lambda>t p. project_title t = Inr p) titles pts
           \<and> entry_field e ''titles'' = Some (VList pts)"
    if h: "process_stat stat = Inr [e]"
    using process_stat_cases[OF h] by (auto simp: entry_field_def mapM_eq_Inr)
  show ?thesis using a b by blast
qed

text \<open>A title with the canonical field \<^verbatim>\<open>c\<close> and the legacy field \<^verbatim>\<open>m\<close> is projected with
  \<^verbatim>\<open>c\<close>.\<close>

theorem mobile_url_projection_witness:
  "project_title (url_title (VStr [99])) = Inr (url_projected (VStr [99]))
   \<and> entry_field (url_projected (VStr [99])) ''mobile_url'' = Some (VStr [99])
   \<and> process_stat (url_stat (VStr [99])) = Inr [url_entry (VStr [99])]
   \<and> entry_field (url_entry (VStr [99])) ''titles'' = Some (VList [url_projected (VStr [99])])"
proof -
  have a: "project_title (url_title (VStr [99])) = Inr (url_projected (VStr [99]))"
    by code_simp
  have b: "process_stat (url_stat (VStr [99])) = Inr [url_entry (VStr [99])]"
    by code_simp
  have c: "spec_mobile_url d = VStr [99]" if "url_title (VStr [99]) = VDict d" for d
    using that by (auto simp: url_title_def spec_mobile_url_def)
  have e: "entry_field (url_entry (VStr [99])) ''titles'' = Some (VList [url_projected (VStr [99])])"
    by (simp add: entry_field_def url_entry_def)
  show ?thesis
    using a b c e
      mobile_url_projection[of "url_title (VStr [99])" "url_projected (VStr [99])"
        "url_stat (VStr [99])" "url_entry (VStr [99])"]
    by auto
qed

text \<open>A title that has both fields, the canonical one empty: the projection carries the
  value of the legacy field.\<close>

theorem empty_canonical_counterexample:
  "entry_field (url_title (VStr [])) ''mobile_url'' = Some (VStr [])
   \<and> entry_field (url_title (VStr [])) ''mobileUrl'' = Some (VStr [109])
   \<and> process_stats (VList [url_stat (VStr [])]) = Inr [url_entry (VStr [109])]
   \<and> entry_field (url_projected (VStr [109])) ''mobile_url'' = Some (VStr [109])"
  by code_simp

subsection \<open>Merging one keyword RSS entry\<close>

lemma update_absent: "map_of m k = None \<Longrightarrow> AList.update k v m = m @ [(k, v)]"
  by (induction m) (auto split: if_splits)

lemma int_or0_coerced: "coerced_count v = Some n \<Longrightarrow> int_or0 v = Inr n"
  by (cases v) (auto simp: coerced_count_def int_or0_def or_else_def split: if_splits sum.splits)

lemma py_int_coerced: "coerced_position v = Some n \<Longrightarrow> py_int v = Inr n"
  by (cases v) (auto simp: coerced_position_def split: sum.splits)

lemma list_or_empty_titles: "titles_list v = Some xs \<Longrightarrow> list_or_empty v = Inr xs"
  by (cases v) (auto simp: titles_list_def list_or_empty_def or_else_def)

lemma position_min_coerced:
  "coerced_position a = Some p \<Longrightarrow> coerced_position b = Some q
     \<Longrightarrow> position_min a b = Inr (VInt (min p q))"
  by (simp add: position_min_def py_int_coerced)

lemma float_or0_ok:
  "percentage_ok v \<Longrightarrow> (\<exists>e. float_or0 fl v = Inl e \<and> caught e) \<or> (\<exists>x. float_or0 fl v = Inr x)"
  by (cases v) (auto simp: percentage_ok_def caught_def split: option.splits)

lemma percentage_sum_ok:
  assumes "percentage_ok a" "percentage_ok b"
  shows "\<exists>q. percentage_sum fl a b = Inr q"
  using float_or0_ok[OF assms(1), of fl] float_or0_ok[OF assms(2), of fl]
  by (auto simp: percentage_sum_def)

lemma merge_entry_fields:
  assumes c: "coerced_count (dict_get merged (key ''count'') (VInt 0)) = Some c1"
      "coerced_count (dict_get d (key ''count'') (VInt 0)) = Some c2"
    and t: "titles_list (dict_get merged (key ''titles'') (VList [])) = Some t1"
      "titles_list (dict_get d (key ''titles'') (VList [])) = Some t2"
    and p: "coerced_position (dict_get merged (key ''position'') (VInt 999)) = Some p1"
      "coerced_position (dict_get d (key ''position'') (VInt 999)) = Some p2"
    and q: "percentage_ok (dict_get merged (key ''percentage'') (VInt 0))"
      "percentage_ok (dict_get d (key ''percentage'') (VInt 0))"
  shows "\<exists>merged'. merge_entry fl merged d = Inr merged'
           \<and> map_of merged' (key ''count'') = Some (VInt (c1 + c2))
           \<and> map_of merged' (key ''titles'') = Some (VList (t1 @ t2))
           \<and> map_of merged' (key ''position'') = Some (VInt (min p1 p2))
           \<and> map_of merged' (key ''word'') = map_of merged (key ''word'')"
proof -
  define m3 where "m3 = dict_set (dict_set (dict_set merged (key ''count'') (VInt (c1 + c2)))
      (key ''titles'') (VList (t1 @ t2))) (key ''position'') (VInt (min p1 p2))"
  obtain r where pm: "percentage_sum fl (dict_get m3 (key ''percentage'') (VInt 0))
              (dict_get d (key ''percentage'') (VInt 0)) = Inr r"
    using percentage_sum_ok[OF q, of fl] by (auto simp: m3_def dict_get_dict_set)
  have me: "merge_entry fl merged d =
      rbind (percentage_sum fl (dict_get m3 (key ''percentage'') (VInt 0))
              (dict_get d (key ''percentage'') (VInt 0))) (\<lambda>q.
       Inr (case q of None \<Rightarrow> m3 | Some v \<Rightarrow> dict_set m3 (key ''percentage'') v))"
    unfolding merge_entry_def Let_def m3_def
    by (simp add: int_or0_coerced[OF c(1)] int_or0_coerced[OF c(2)] dict_get_dict_set
        list_or_empty_titles[OF t(1)] list_or_empty_titles[OF t(2)]
        position_min_coerced[OF p(1) p(2)])
  have f: "map_of m3 (key ''count'') = Some (VInt (c1 + c2))"
    "map_of m3 (key ''titles'') = Some (VList (t1 @ t2))"
    "map_of m3 (key ''position'') = Some (VInt (min p1 p2))"
    "map_of m3 (key ''word'') = map_of merged (key ''word'')"
    by (simp_all add: m3_def map_of_dict_set)
  have "merge_entry fl merged d
      = Inr (case r of None \<Rightarrow> m3 | Some v \<Rightarrow> dict_set m3 (key ''percentage'') v)"
    using me pm by simp
  with f show ?thesis by (cases r) (simp_all add: map_of_dict_set)
qed

text \<open>
  Claim C3, as amended. Let a keyword RSS entry have a non-empty string as its word. If
  \<^verbatim>\<open>merged_by_word\<close> has no entry for the word, the RSS entry is added at the end as a new
  record. If it has one, and both counts can be read (with \<^verbatim>\<open>int\<close>, a missing, \<^verbatim>\<open>None\<close> or
  empty count as 0), both titles are lists (or missing), both positions can be read with
  \<^verbatim>\<open>int\<close> (a missing one as 999) and neither percentage is an integer that \<^verbatim>\<open>float\<close>
  refuses as too large (of magnitude \<open>2^1024 - 2^970\<close> or more), then the entry is
  replaced in place by one whose count is the sum of the two counts, whose titles are the
  titles of the hot-list entry followed by those of the RSS entry, whose position is the
  smaller of the two positions, and whose word is unchanged.
\<close>

theorem rss_merge_rule:
  "map_of d (key ''word'') = Some (VStr w) \<and> w \<noteq> [] \<longrightarrow>
     (map_of m (VStr w) = None \<longrightarrow> add_rss fl m (VDict d) = Inr (m @ [(VStr w, d)]))
   \<and> (map_of m (VStr w) = Some merged
        \<and> coerced_count (dict_get merged (key ''count'') (VInt 0)) = Some ca
        \<and> coerced_count (dict_get d (key ''count'') (VInt 0)) = Some cb
        \<and> titles_list (dict_get merged (key ''titles'') (VList [])) = Some ta
        \<and> titles_list (dict_get d (key ''titles'') (VList [])) = Some tb
        \<and> coerced_position (dict_get merged (key ''position'') (VInt 999)) = Some pa
        \<and> coerced_position (dict_get d (key ''position'') (VInt 999)) = Some pb
        \<and> percentage_ok (dict_get merged (key ''percentage'') (VInt 0))
        \<and> percentage_ok (dict_get d (key ''percentage'') (VInt 0))
      \<longrightarrow> (\<exists>merged'. add_rss fl m (VDict d) = Inr (AList.update (VStr w) merged' m)
             \<and> map_of merged' (key ''count'') = Some (VInt (ca + cb))
             \<and> map_of merged' (key ''titles'') = Some (VList (ta @ tb))
             \<and> length (ta @ tb) = length ta + length tb
             \<and> map_of merged' (key ''position'') = Some (VInt (min pa pb))
             \<and> map_of merged' (key ''word'') = map_of merged (key ''word'')))"
proof (intro impI, elim conjE)
  assume w: "map_of d (key ''word'') = Some (VStr w)" "w \<noteq> []"
  have r: "add_rss fl m (VDict d) =
      (case map_of m (VStr w) of
         Some merged \<Rightarrow> rbind (merge_entry fl merged d) (\<lambda>merged'. Inr (AList.update (VStr w) merged' m))
       | None \<Rightarrow> Inr (AList.update (VStr w) d m))"
    using w by (simp add: add_rss_def dict_get_def)
  have a: "add_rss fl m (VDict d) = Inr (m @ [(VStr w, d)])" if "map_of m (VStr w) = None"
    using that r by (simp add: update_absent)
  have b: "\<exists>merged'. add_rss fl m (VDict d) = Inr (AList.update (VStr w) merged' m)
             \<and> map_of merged' (key ''count'') = Some (VInt (ca + cb))
             \<and> map_of merged' (key ''titles'') = Some (VList (ta @ tb))
             \<and> length (ta @ tb) = length ta + length tb
             \<and> map_of merged' (key ''position'') = Some (VInt (min pa pb))
             \<and> map_of merged' (key ''word'') = map_of merged (key ''word'')"
    if m: "map_of m (VStr w) = Some merged"
      and c: "coerced_count (dict_get merged (key ''count'') (VInt 0)) = Some ca"
        "coerced_count (dict_get d (key ''count'') (VInt 0)) = Some cb"
      and t: "titles_list (dict_get merged (key ''titles'') (VList [])) = Some ta"
        "titles_list (dict_get d (key ''titles'') (VList [])) = Some tb"
      and p: "coerced_position (dict_get merged (key ''position'') (VInt 999)) = Some pa"
        "coerced_position (dict_get d (key ''position'') (VInt 999)) = Some pb"
      and q: "percentage_ok (dict_get merged (key ''percentage'') (VInt 0))"
        "percentage_ok (dict_get d (key ''percentage'') (VInt 0))"
  proof -
    from merge_entry_fields[OF c t p q] obtain merged' where
      "merge_entry fl merged d = Inr merged'"
      "map_of merged' (key ''count'') = Some (VInt (ca + cb))"
      "map_of merged' (key ''titles'') = Some (VList (ta @ tb))"
      "map_of merged' (key ''position'') = Some (VInt (min pa pb))"
      "map_of merged' (key ''word'') = map_of merged (key ''word'')"
      by blast
    then show ?thesis using r m by auto
  qed
  show "(map_of m (VStr w) = None \<longrightarrow> add_rss fl m (VDict d) = Inr (m @ [(VStr w, d)]))
   \<and> (map_of m (VStr w) = Some merged
        \<and> coerced_count (dict_get merged (key ''count'') (VInt 0)) = Some ca
        \<and> coerced_count (dict_get d (key ''count'') (VInt 0)) = Some cb
        \<and> titles_list (dict_get merged (key ''titles'') (VList [])) = Some ta
        \<and> titles_list (dict_get d (key ''titles'') (VList [])) = Some tb
        \<and> coerced_position (dict_get merged (key ''position'') (VInt 999)) = Some pa
        \<and> coerced_position (dict_get d (key ''position'') (VInt 999)) = Some pb
        \<and> percentage_ok (dict_get merged (key ''percentage'') (VInt 0))
        \<and> percentage_ok (dict_get d (key ''percentage'') (VInt 0))
      \<longrightarrow> (\<exists>merged'. add_rss fl m (VDict d) = Inr (AList.update (VStr w) merged' m)
             \<and> map_of merged' (key ''count'') = Some (VInt (ca + cb))
             \<and> map_of merged' (key ''titles'') = Some (VList (ta @ tb))
             \<and> length (ta @ tb) = length ta + length tb
             \<and> map_of merged' (key ''position'') = Some (VInt (min pa pb))
             \<and> map_of merged' (key ''word'') = map_of merged (key ''word'')))"
    using a b by blast
qed

text \<open>The example of the specification: count 3 and count 2 give count 5, the two
  hot-list titles come before the RSS title, and the position 2 is less than the default
  999 of the RSS entry. Into an empty \<^verbatim>\<open>merged_by_word\<close> the RSS entry is inserted as it
  is.\<close>

theorem rss_merge_rule_witness:
  "map_of chip_rss (key ''word'') = Some (VStr chip_word) \<and> chip_word \<noteq> []
   \<and> add_rss example_floats [] (VDict chip_rss) = Inr [(VStr chip_word, chip_rss)]
   \<and> add_rss example_floats [(VStr chip_word, chip_hot)] (VDict chip_rss) = Inr [(VStr chip_word, chip_merged)]
   \<and> (\<exists>merged'. add_rss example_floats [(VStr chip_word, chip_hot)] (VDict chip_rss)
                    = Inr (AList.update (VStr chip_word) merged' [(VStr chip_word, chip_hot)])
         \<and> map_of merged' (key ''count'') = Some (VInt 5)
         \<and> map_of merged' (key ''titles'')
             = Some (VList [VStr [104, 49], VStr [104, 50], VStr [114, 49]])
         \<and> map_of merged' (key ''position'') = Some (VInt 2))"
proof -
  have w: "map_of chip_rss (key ''word'') = Some (VStr chip_word)" "chip_word \<noteq> []"
    by (simp_all add: chip_rss_def chip_word_def)
  have h: "map_of [(VStr chip_word, chip_hot)] (VStr chip_word) = Some chip_hot"
    "coerced_count (dict_get chip_hot (key ''count'') (VInt 0)) = Some 3"
    "coerced_count (dict_get chip_rss (key ''count'') (VInt 0)) = Some 2"
    "titles_list (dict_get chip_hot (key ''titles'') (VList [])) = Some [VStr [104, 49], VStr [104, 50]]"
    "titles_list (dict_get chip_rss (key ''titles'') (VList [])) = Some [VStr [114, 49]]"
    "coerced_position (dict_get chip_hot (key ''position'') (VInt 999)) = Some 2"
    "coerced_position (dict_get chip_rss (key ''position'') (VInt 999)) = Some 999"
    "percentage_ok (dict_get chip_hot (key ''percentage'') (VInt 0))"
    "percentage_ok (dict_get chip_rss (key ''percentage'') (VInt 0))"
    by (simp_all add: chip_hot_def chip_rss_def dict_get_def coerced_count_def titles_list_def
        coerced_position_def percentage_ok_def)
  have e: "add_rss example_floats [(VStr chip_word, chip_hot)] (VDict chip_rss) = Inr [(VStr chip_word, chip_merged)]"
    using w(2)
    by (simp add: add_rss_def merge_entry_def chip_hot_def chip_rss_def chip_merged_def
        dict_get_def dict_set_def int_or0_def or_else_def list_or_empty_def position_min_def
        percentage_sum_def example_floats_def)
  have a: "add_rss example_floats [] (VDict chip_rss) = Inr [(VStr chip_word, chip_rss)]"
    using rss_merge_rule[where fl = example_floats and d = chip_rss and w = chip_word and m = "[]", THEN mp,
        OF conjI[OF w], THEN conjunct1]
    by simp
  have b: "\<exists>merged'. add_rss example_floats [(VStr chip_word, chip_hot)] (VDict chip_rss)
                    = Inr (AList.update (VStr chip_word) merged' [(VStr chip_word, chip_hot)])
         \<and> map_of merged' (key ''count'') = Some (VInt 5)
         \<and> map_of merged' (key ''titles'')
             = Some (VList [VStr [104, 49], VStr [104, 50], VStr [114, 49]])
         \<and> map_of merged' (key ''position'') = Some (VInt 2)"
    using rss_merge_rule[where fl = example_floats and d = chip_rss and w = chip_word
        and m = "[(VStr chip_word, chip_hot)]" and merged = chip_hot and ca = 3 and cb = 2
        and ta = "[VStr [104, 49], VStr [104, 50]]" and tb = "[VStr [114, 49]]"
        and pa = 2 and pb = 999, THEN mp, OF conjI[OF w], THEN conjunct2] h
    by auto
  show ?thesis using w a b e by blast
qed

text \<open>A hot-list entry whose count is the string \<^verbatim>\<open>abc\<close>: the count is not taken as 0, the
  merge raises \<^verbatim>\<open>ValueError\<close>.\<close>

theorem non_numeric_count_counterexample:
  "merge_stats example_floats (VList [VDict chip_hot_abc]) [VDict chip_rss] = Inl ValueError"
proof -
  have n: "chip_word \<noteq> []" by (simp add: chip_word_def)
  have w: "dict_get chip_hot_abc (key ''word'') VNone = VStr chip_word"
    "dict_get chip_rss (key ''word'') VNone = VStr chip_word"
    "dict_get chip_hot_abc (key ''count'') (VInt 0) = VStr [97, 98, 99]"
    by (simp_all add: chip_hot_abc_def chip_rss_def dict_get_def)
  have m: "merge_entry example_floats chip_hot_abc chip_rss = Inl ValueError"
    by (simp add: merge_entry_def w int_or0_def or_else_def py_int_examples)
  show ?thesis
    using n by (simp add: merge_stats_def merged_by_word_def or_else_def add_primary_def
        add_rss_def w m)
qed

subsection \<open>The order of the merged entries\<close>

lemma stat_sort_key_plain:
  assumes "plain_sort_fields d"
  shows "stat_sort_key d = Inr (spec_sort_key d)"
proof -
  from assms have c: "int_or0 (dict_get d (key ''count'') (VInt 0)) = Inr (stat_count d)"
    by (auto simp: plain_sort_fields_def dict_get_def stat_count_def int_or0_def or_else_def
        split: option.splits pyval.splits)
  from assms have p: "rbind (or_else (dict_get d (key ''position'') (VInt 999)) (VInt 999)) py_int
      = Inr (stat_position d)"
    by (auto simp: plain_sort_fields_def dict_get_def stat_position_def or_else_def
        split: option.splits pyval.splits)
  show ?thesis by (simp add: stat_sort_key_def c p spec_sort_key_def)
qed

lemma mapM_total:
  assumes "\<forall>x \<in> set xs. f x = Inr (g x)"
  shows "mapM f xs = Inr (map g xs)"
  using assms by (induction xs) simp_all

lemma insort_key_map_pair:
  "insort_key fst (g x, x) (map (\<lambda>y. (g y, y)) ys) = map (\<lambda>y. (g y, y)) (insort_key g x ys)"
  by (induction ys) simp_all

lemma sort_key_map_pair:
  "sort_key fst (map (\<lambda>y. (g y, y)) xs) = map (\<lambda>y. (g y, y)) (sort_key g xs)"
  by (induction xs) (simp_all add: insort_key_map_pair)

lemma zip_map_self: "zip (map g xs) xs = map (\<lambda>y. (g y, y)) xs"
  by (induction xs) simp_all

lemma sorted_by_total:
  assumes "\<forall>x \<in> set xs. f x = Inr (g x)"
  shows "sorted_by f xs = Inr (sort_key g xs)"
  by (simp add: sorted_by_def mapM_total[OF assms] zip_map_self sort_key_map_pair comp_def)

lemma merge_stats_sorted:
  assumes "merged_by_word fl stats_arg rss = Inr m" "\<forall>d \<in> set (map snd m). plain_sort_fields d"
  shows "merge_stats fl stats_arg rss = Inr (map VDict (sort_key spec_sort_key (map snd m)))"
proof -
  have "\<forall>d \<in> set (map snd m). stat_sort_key d = Inr (spec_sort_key d)"
    using assms(2) stat_sort_key_plain by blast
  then have "sorted_by stat_sort_key (map snd m) = Inr (sort_key spec_sort_key (map snd m))"
    by (rule sorted_by_total)
  then show ?thesis
    by (simp add: merge_stats_def assms(1))
qed

lemma abc_merged:
  "merged_by_word fl (VList [VDict stat_A, VDict stat_B]) [VDict stat_C]
     = Inr [(VStr [65], stat_A), (VStr [66], stat_B), (VStr [67], stat_C)]"
  by code_simp

lemma abc_sorted:
  "sort_key spec_sort_key [stat_A, stat_B, stat_C] = [stat_C, stat_B, stat_A]"
  by code_simp

lemma spec_sort_key_le:
  "spec_sort_key a \<le> spec_sort_key b \<longleftrightarrow>
     stat_count b < stat_count a \<or> (stat_count a = stat_count b \<and> stat_position a \<le> stat_position b)"
  by (auto simp: spec_sort_key_def less_eq_prod_def)

lemma abc_order:
  "merge_stats fl (VList [VDict stat_A, VDict stat_B]) [VDict stat_C]
     = Inr [VDict stat_C, VDict stat_B, VDict stat_A]"
proof -
  have "\<forall>d \<in> set (map snd [(VStr [65], stat_A), (VStr [66], stat_B), (VStr [67], stat_C)]).
          plain_sort_fields d"
    by (simp add: plain_sort_fields_def stat_A_def stat_B_def stat_C_def)
  from merge_stats_sorted[OF abc_merged this]
  have "merge_stats fl (VList [VDict stat_A, VDict stat_B]) [VDict stat_C]
      = Inr (map VDict (sort_key spec_sort_key [stat_A, stat_B, stat_C]))"
    by (simp only: list.map snd_conv)
  then show ?thesis by (simp only: abc_sorted list.map)
qed

text \<open>
  Claim C4, as amended. When the entries of \<^verbatim>\<open>merged_by_word\<close> have integer counts (or
  none) and integer positions other than 0 (or none), the merge step returns them stably
  sorted by descending count, ties broken by ascending position, an entry without a
  position counting as 999: the result is sorted by the key, and the entries of each key
  keep their insertion order. The entries \<^verbatim>\<open>A\<close> (count 5, no position), \<^verbatim>\<open>B\<close> (count 5,
  position 1) and \<^verbatim>\<open>C\<close> (count 7) come out in the order \<^verbatim>\<open>C\<close>, \<^verbatim>\<open>B\<close>, \<^verbatim>\<open>A\<close>.
\<close>

theorem merged_stats_order:
  "(merged_by_word fl stats_arg rss = Inr m \<and> (\<forall>d \<in> set (map snd m). plain_sort_fields d) \<longrightarrow>
      (\<exists>out. merge_stats fl stats_arg rss = Inr (map VDict out)
         \<and> sorted (map spec_sort_key out)
         \<and> (\<forall>k. filter (\<lambda>d. spec_sort_key d = k) out
                 = filter (\<lambda>d. spec_sort_key d = k) (map snd m))))
   \<and> (spec_sort_key a \<le> spec_sort_key b \<longleftrightarrow>
        stat_count b < stat_count a
        \<or> (stat_count a = stat_count b \<and> stat_position a \<le> stat_position b))
   \<and> merge_stats fl (VList [VDict stat_A, VDict stat_B]) [VDict stat_C]
        = Inr [VDict stat_C, VDict stat_B, VDict stat_A]"
proof -
  have "\<exists>out. merge_stats fl stats_arg rss = Inr (map VDict out)
         \<and> sorted (map spec_sort_key out)
         \<and> (\<forall>k. filter (\<lambda>d. spec_sort_key d = k) out
                 = filter (\<lambda>d. spec_sort_key d = k) (map snd m))"
    if "merged_by_word fl stats_arg rss = Inr m" "\<forall>d \<in> set (map snd m). plain_sort_fields d"
    using merge_stats_sorted[OF that] sorted_sort_key[of spec_sort_key "map snd m"]
      sort_key_stable[of spec_sort_key _ "map snd m"]
    by blast
  then show ?thesis using spec_sort_key_le abc_order by blast
qed

text \<open>An entry with count 1 that an RSS entry raises to count 6 comes before an entry
  with count 3.\<close>

theorem merged_stats_order_witness:
  "merged_by_word example_floats (VList [VDict stat_Y, VDict stat_X]) [VDict rss_X]
     = Inr [(VStr [89], stat_Y), (VStr [88], merged_X)]
   \<and> plain_sort_fields stat_Y \<and> plain_sort_fields merged_X
   \<and> merge_stats example_floats (VList [VDict stat_Y, VDict stat_X]) [VDict rss_X]
       = Inr [VDict merged_X, VDict stat_Y]
   \<and> (\<exists>out. merge_stats example_floats (VList [VDict stat_Y, VDict stat_X]) [VDict rss_X] = Inr (map VDict out)
         \<and> sorted (map spec_sort_key out))"
proof -
  have m: "merged_by_word example_floats (VList [VDict stat_Y, VDict stat_X]) [VDict rss_X]
     = Inr [(VStr [89], stat_Y), (VStr [88], merged_X)]"
    by code_simp
  have p: "plain_sort_fields stat_Y" "plain_sort_fields merged_X"
    by (simp_all add: plain_sort_fields_def stat_Y_def merged_X_def)
  have q: "\<forall>d \<in> set (map snd [(VStr [89], stat_Y), (VStr [88], merged_X)]). plain_sort_fields d"
    using p by simp
  have e: "merge_stats example_floats (VList [VDict stat_Y, VDict stat_X]) [VDict rss_X]
       = Inr [VDict merged_X, VDict stat_Y]"
    by code_simp
  show ?thesis
    using m p e merged_stats_order[THEN conjunct1, THEN mp, OF conjI[OF m q]]
    by blast
qed

text \<open>The example of the specification: the entry \<^verbatim>\<open>B\<close> with position 1 comes before the
  entry \<^verbatim>\<open>A\<close>, which has no position and so counts as 999.\<close>

theorem example_order_counterexample:
  "merge_stats example_floats (VList [VDict stat_A, VDict stat_B]) [VDict stat_C]
     = Inr [VDict stat_C, VDict stat_B, VDict stat_A]
   \<and> merge_stats example_floats (VList [VDict stat_A, VDict stat_B]) [VDict stat_C]
     \<noteq> Inr [VDict stat_C, VDict stat_A, VDict stat_B]"
  using abc_order[of example_floats] by (simp add: stat_A_def stat_B_def)

text \<open>The sort key of the code reads a position 0 as 999 (\<^verbatim>\<open>x.get("position", 999) or 999\<close>).\<close>

lemma position_zero_key:
  "stat_sort_key [(key ''count'', VInt 5), (key ''position'', VInt 0)] = Inr (- 5, 999)"
  by (simp add: stat_sort_key_def dict_get_def int_or0_def or_else_def)

subsection \<open>Regrouping the personal feeds\<close>

lemma foldM_snoc: "foldM f s (xs @ [x]) = rbind (foldM f s xs) (\<lambda>s'. f s' x)"
proof (induction xs arbitrary: s)
  case Nil
  show ?case by (cases "f s x") simp_all
next
  case (Cons y ys)
  show ?case by (cases "f s y") (simp_all add: Cons.IH)
qed

lemma titles_flattened:
  assumes "list_all well_formed_stat stats"
  shows "mapM (\<lambda>stat. rbind (py_get stat (key ''titles'') (VList [])) list_or_empty) stats
           = Inr (map titles_of stats)"
proof (rule mapM_total, rule ballI)
  fix s assume "s \<in> set stats"
  with assms have w: "well_formed_stat s" by (simp add: list_all_iff)
  then obtain d where d: "s = VDict d" by (cases s) (simp_all add: well_formed_stat_def)
  show "rbind (py_get s (key ''titles'') (VList [])) list_or_empty = Inr (titles_of s)"
    using w unfolding d
    by (auto simp: well_formed_stat_def titles_of_def entry_field_def dict_get_def
        list_or_empty_def or_else_def split: option.splits pyval.splits)
qed

lemma well_formed_titles:
  assumes "list_all well_formed_stat stats"
  shows "list_all well_formed_title (concat (map titles_of stats))"
  using assms
  by (induction stats)
    (auto simp: well_formed_stat_def titles_of_def entry_field_def split: pyval.splits option.splits)

lemma feed_names_snoc:
  "feed_names (ts @ [t]) =
     (if feed_name_of t \<in> set (feed_names ts) then feed_names ts
      else feed_names ts @ [feed_name_of t])"
  by (simp add: feed_names_def)

lemma set_feed_names: "set (feed_names ts) = feed_name_of ` set ts"
  by (simp add: feed_names_def)

lemma distinct_feed_names: "distinct (feed_names ts)"
  by (simp add: feed_names_def)

lemma bucket_snoc:
  "bucket (ts @ [t]) n = (if feed_name_of t = n then bucket ts n @ [t] else bucket ts n)"
  by (simp add: bucket_def)

lemma map_of_named:
  "map_of (map (\<lambda>n. (VStr n, h n)) ns) (VStr n) = (if n \<in> set ns then Some (h n) else None)"
  by (induction ns) auto

lemma update_named:
  "distinct ns \<Longrightarrow> n \<in> set ns \<Longrightarrow>
     AList.update (VStr n) v (map (\<lambda>x. (VStr x, h x)) ns)
       = map (\<lambda>x. (VStr x, if x = n then v else h x)) ns"
  by (induction ns) auto

lemma feed_name_RSS_nonempty: "feed_name_of t \<noteq> []"
  by (auto simp: feed_name_of_def RSS_def split: option.splits pyval.splits)

lemma add_to_feed_buckets:
  assumes "well_formed_title t"
  shows "add_to_feed (buckets ts) t = Inr (buckets (ts @ [t]))"
proof -
  from assms obtain d where d: "t = VDict d" by (cases t) (simp_all add: well_formed_title_def)
  have n: "rbind (or_else (dict_get d (key ''source_name'') (VStr [])) (VStr [82, 83, 83])) as_key
             = Inr (VStr (feed_name_of t))"
    using assms unfolding d
    by (auto simp: well_formed_title_def feed_name_of_def entry_field_def dict_get_def
        or_else_def RSS_def split: option.splits pyval.splits)
  then obtain fn where fn: "or_else (dict_get d (key ''source_name'') (VStr [])) (VStr [82, 83, 83]) = Inr fn"
    "as_key fn = Inr (VStr (feed_name_of t))"
    by (auto simp: rbind_eq_Inr)
  have pg: "py_get t (key ''source_name'') (VStr [])
              = Inr (dict_get d (key ''source_name'') (VStr []))"
    by (simp add: d)
  have a: "add_to_feed (buckets ts) t =
      Inr (case map_of (buckets ts) (VStr (feed_name_of t)) of
              None \<Rightarrow> buckets ts @ [(VStr (feed_name_of t), [t])]
            | Some items \<Rightarrow> AList.update (VStr (feed_name_of t)) (items @ [t]) (buckets ts))"
    by (simp add: add_to_feed_def pg fn)
  show ?thesis
  proof (cases "feed_name_of t \<in> set (feed_names ts)")
    case True
    have "AList.update (VStr (feed_name_of t)) (bucket ts (feed_name_of t) @ [t]) (buckets ts)
        = buckets (ts @ [t])"
      unfolding buckets_def
      by (simp add: update_named[OF distinct_feed_names True] feed_names_snoc True bucket_snoc)
    then show ?thesis using a True by (simp add: buckets_def map_of_named)
  next
    case False
    then have "\<forall>x \<in> set ts. feed_name_of x \<noteq> feed_name_of t"
      unfolding set_feed_names by (metis image_eqI)
    then have e: "bucket ts (feed_name_of t) = []"
      by (simp add: bucket_def filter_empty_conv)
    have "buckets ts @ [(VStr (feed_name_of t), [t])] = buckets (ts @ [t])"
      unfolding buckets_def using False
      by (auto simp: feed_names_snoc bucket_snoc e)
    then show ?thesis using a False by (simp add: buckets_def map_of_named)
  qed
qed

lemma foldM_add_to_feed:
  assumes "list_all well_formed_title ts"
  shows "foldM add_to_feed [] ts = Inr (buckets ts)"
  using assms
proof (induction ts rule: rev_induct)
  case Nil
  show ?case by (simp add: buckets_def feed_names_def)
next
  case (snoc t ts)
  then show ?case by (simp add: foldM_snoc add_to_feed_buckets)
qed

lemma ranks_intlike:
  "list_all is_rank rs \<Longrightarrow> list_all is_intlike rs \<and> map intlike_value rs = map rank_value rs"
  by (induction rs)
    (auto simp: is_rank_def is_intlike_def intlike_value_def rank_value_def split: pyval.splits)

lemma rank_key_min_rank:
  assumes "well_formed_title t"
  shows "rank_key t = Inr (min_rank t)"
proof -
  from assms obtain d where d: "t = VDict d" by (cases t) (simp_all add: well_formed_title_def)
  consider (none) "map_of d (key ''ranks'') = None"
    | (list) rs where "map_of d (key ''ranks'') = Some (VList rs)" "list_all is_rank rs"
    using assms unfolding d well_formed_title_def
    by (auto split: option.splits pyval.splits)
  then show ?thesis
  proof cases
    case none
    then show ?thesis
      by (simp add: d rank_key_def dict_get_def min_rank_def entry_field_def)
  next
    case list
    show ?thesis
    proof (cases "rs = []")
      case True
      with list show ?thesis
        by (simp add: d rank_key_def dict_get_def min_rank_def entry_field_def)
    next
      case False
      with list ranks_intlike[OF list(2)] show ?thesis
        by (simp add: d rank_key_def dict_get_def min_rank_def entry_field_def)
    qed
  qed
qed

lemma clean_item_display:
  assumes "well_formed_title t"
  shows "clean_item t = Inr (display_copy t)"
proof -
  from assms obtain d where d: "t = VDict d" by (cases t) (simp_all add: well_formed_title_def)
  show ?thesis by (simp add: d clean_item_def display_copy_def)
qed

lemma summarize_feed_digest:
  assumes "list_all well_formed_title ts"
  shows "summarize_feed (VStr n, bucket ts n) = Inr (named (digest ts n))"
proof -
  have w: "\<forall>t \<in> set (bucket ts n). well_formed_title t"
    using assms by (simp add: bucket_def list_all_iff)
  then have "\<forall>t \<in> set (bucket ts n). rank_key t = Inr (min_rank t)"
    using rank_key_min_rank by blast
  then have s: "sorted_by rank_key (bucket ts n) = Inr (sort_key min_rank (bucket ts n))"
    by (rule sorted_by_total)
  have "\<forall>t \<in> set (sort_key min_rank (bucket ts n)). clean_item t = Inr (display_copy t)"
    using w clean_item_display by simp
  then have c: "mapM clean_item (sort_key min_rank (bucket ts n))
      = Inr (map display_copy (sort_key min_rank (bucket ts n)))"
    by (rule mapM_total)
  have l: "(case sort_key min_rank (bucket ts n) of [] \<Rightarrow> Inr 999 | x # _ \<Rightarrow> rank_key x)
      = Inr (case sort_key min_rank (bucket ts n) of [] \<Rightarrow> 999 | x # _ \<Rightarrow> min_rank x)"
  proof (cases "sort_key min_rank (bucket ts n)")
    case Nil
    then show ?thesis by simp
  next
    case (Cons x xs)
    then have "x \<in> set (sort_key min_rank (bucket ts n))" by simp
    then have "well_formed_title x" using w by simp
    then show ?thesis using Cons by (simp add: rank_key_min_rank)
  qed
  show ?thesis
    by (simp add: summarize_feed_def s c l named_def digest_def Let_def)
qed

lemma summaries:
  assumes "list_all well_formed_title ts"
  shows "mapM summarize_feed (buckets ts) = Inr (map (\<lambda>n. named (digest ts n)) (feed_names ts))"
proof -
  have "\<forall>b \<in> set (buckets ts). summarize_feed b = Inr (named (digest ts (str_value (fst b))))"
    using summarize_feed_digest[OF assms] by (auto simp: buckets_def str_value_def)
  then have "mapM summarize_feed (buckets ts)
      = Inr (map (\<lambda>b. named (digest ts (str_value (fst b)))) (buckets ts))"
    by (rule mapM_total)
  then show ?thesis by (simp add: buckets_def comp_def str_value_def)
qed

lemma insort_key_map:
  "insort_key f (h x) (map h ys) = map h (insort_key (\<lambda>x. f (h x)) x ys)"
  by (induction ys) simp_all

lemma sort_key_map: "sort_key f (map h xs) = map h (sort_key (\<lambda>x. f (h x)) xs)"
  by (induction xs) (simp_all add: insort_key_map)

lemma feeds_sorted:
  "sorted_by feed_sort_key (map named gs) = Inr (map named (sort_key digest_key gs))"
proof -
  have "\<forall>x \<in> set (map named gs).
      feed_sort_key x = Inr (snd (snd x), - int (length (fst (snd x))), str_value (fst x))"
    by (auto simp: feed_sort_key_def named_def str_value_def)
  then have "sorted_by feed_sort_key (map named gs)
      = Inr (sort_key (\<lambda>x. (snd (snd x), - int (length (fst (snd x))), str_value (fst x)))
               (map named gs))"
    by (rule sorted_by_total)
  also have "sort_key (\<lambda>x. (snd (snd x), - int (length (fst (snd x))), str_value (fst x)))
               (map named gs)
      = map named (sort_key digest_key gs)"
  proof -
    have "digest_key = (\<lambda>x. (snd (snd x), - int (length (fst (snd x))), fst x))"
      by (rule ext) (simp add: digest_key_def)
    then show ?thesis
      unfolding sort_key_map by (simp add: named_def str_value_def)
  qed
  finally show ?thesis .
qed

lemma enumerate_map_snd:
  "enumerate i (map h xs) = map (\<lambda>p. (fst p, h (snd p))) (enumerate i xs)"
  by (induction xs arbitrary: i) simp_all

lemma entries_named:
  "map feed_entry (enumerate 0 (map named gs)) = map digest_entry (enumerate 0 gs)"
  by (simp add: enumerate_map_snd comp_def feed_entry_def digest_entry_def named_def)

lemma personal_feeds_regroup:
  assumes "list_all well_formed_stat stats"
  shows "personal_feeds stats = Inr (spec_regroup (concat (map titles_of stats)))"
proof (cases "stats = []")
  case True
  then show ?thesis
    by (simp add: personal_feeds_def spec_regroup_def feed_names_def)
next
  case False
  note w = well_formed_titles[OF assms]
  have m: "map (\<lambda>n. named (digest ts n)) ns = map named (map (digest ts) ns)" for ts ns
    by simp
  show ?thesis
    using False
    by (simp only: personal_feeds_def if_False titles_flattened[OF assms] rbind_Inr
        foldM_add_to_feed[OF w] summaries[OF w] m feeds_sorted entries_named spec_regroup_def)
qed

lemma display_copy_fields:
  assumes "well_formed_title t"
  shows "entry_field (display_copy t) ''ranks'' = Some (VList [])
       \<and> entry_field (display_copy t) ''source_name'' = Some (VStr [])"
proof -
  from assms obtain d where d: "t = VDict d" by (cases t) (simp_all add: well_formed_title_def)
  show ?thesis by (simp add: d display_copy_def entry_field_def map_of_dict_set)
qed

lemma feeds_example_regrouped: "personal_feeds [feeds_example] = Inr feeds_example_result"
  by code_simp

text \<open>
  Claim C5, as amended. On personal-feed groups whose titles are a list (or missing) of
  records with a string (or no) \<^verbatim>\<open>source_name\<close> and a list of integers (or no) \<^verbatim>\<open>ranks\<close>,
  the regrouping returns the result that the specification describes: the titles of all
  groups, bucketed by \<^verbatim>\<open>source_name\<close>, an empty or missing one as \<^verbatim>\<open>RSS\<close>; each bucket
  stably sorted by the least rank, 999 for empty or missing ranks; the buckets stably
  sorted by the least rank of their first title, then by descending number of titles,
  then by name; one entry for each bucket with its name, its number of titles, its
  index, its titles and the percentage 0. Every emitted title has empty ranks and an
  empty \<^verbatim>\<open>source_name\<close>. With \<^verbatim>\<open>Feed1\<close> holding titles of ranks 5 and 2 and \<^verbatim>\<open>Feed2\<close> one of
  rank 1, \<^verbatim>\<open>Feed2\<close> comes first and the title of rank 2 precedes that of rank 5.
\<close>

theorem personal_feed_regrouping:
  "(list_all well_formed_stat stats \<longrightarrow>
      personal_feeds stats = Inr (spec_regroup (concat (map titles_of stats))))
   \<and> (well_formed_title t \<longrightarrow>
        entry_field (display_copy t) ''ranks'' = Some (VList [])
        \<and> entry_field (display_copy t) ''source_name'' = Some (VStr []))
   \<and> personal_feeds [feeds_example] = Inr feeds_example_result"
  using personal_feeds_regroup display_copy_fields feeds_example_regrouped by blast

text \<open>Two titles without a name, the first without ranks: one bucket \<^verbatim>\<open>RSS\<close>, in which
  the title of rank 3 comes first.\<close>

theorem personal_feed_regrouping_witness:
  "list_all well_formed_stat [unnamed_example]
   \<and> personal_feeds [unnamed_example]
       = Inr (spec_regroup (concat (map titles_of [unnamed_example])))
   \<and> spec_regroup (concat (map titles_of [unnamed_example]))
       = [VDict [(key ''word'', VStr RSS), (key ''count'', VInt 2), (key ''position'', VInt 0),
                 (key ''titles'',
                  VList [VDict [(key ''title'', VStr [120]), (key ''ranks'', VList []),
                                (key ''source_name'', VStr [])],
                         VDict [(key ''title'', VStr [121]), (key ''source_name'', VStr []),
                                (key ''ranks'', VList [])]]),
                 (key ''percentage'', VInt 0)]]
   \<and> well_formed_title (feed_title 97 Feed1 5)
   \<and> entry_field (display_copy (feed_title 97 Feed1 5)) ''ranks'' = Some (VList [])"
proof -
  have w: "list_all well_formed_stat [unnamed_example]" by code_simp
  have v: "well_formed_title (feed_title 97 Feed1 5)" by code_simp
  have s: "spec_regroup (concat (map titles_of [unnamed_example]))
       = [VDict [(key ''word'', VStr RSS), (key ''count'', VInt 2), (key ''position'', VInt 0),
                 (key ''titles'',
                  VList [VDict [(key ''title'', VStr [120]), (key ''ranks'', VList []),
                                (key ''source_name'', VStr [])],
                         VDict [(key ''title'', VStr [121]), (key ''source_name'', VStr []),
                                (key ''ranks'', VList [])]]),
                 (key ''percentage'', VInt 0)]]"
    by code_simp
  show ?thesis
    using w v s
      personal_feed_regrouping[where stats = "[unnamed_example]" and t = "feed_title 97 Feed1 5"]
    by blast
qed

text \<open>A \<^verbatim>\<open>source_name\<close> that is a space is not bucketed as \<^verbatim>\<open>RSS\<close>: it is the name of a
  feed.\<close>

theorem space_name_counterexample:
  "personal_feeds [space_name_example]
     = Inr [VDict [(key ''word'', VStr [32]), (key ''count'', VInt 1), (key ''position'', VInt 0),
                   (key ''titles'', VList [shown_title 97]), (key ''percentage'', VInt 0)]]"
  by code_simp

end
